theory Spec2Isabelle
  imports Main
begin

section \<open>Results of fallible calls\<close>

text \<open>
  Go's error values, as far as the package tells them apart: its own sentinel
  \<open>ErrNotFound\<close>, or any other error value (one that the caller-supplied function made).
\<close>

datatype 'x error = ErrNotFound | Foreign 'x

text \<open>
  The outcome of a call of a Go function that returns \<open>(T, error)\<close>: \<open>Ok v\<close> for
  \<open>(v, nil)\<close>, \<open>Err e\<close> for a non-nil error (the value returned beside it is the zero value
  or nil, and callers ignore it), \<open>Panic\<close> when the call does not return: a nil func value
  was called, or the caller-supplied function panicked.
\<close>

datatype ('x, 'a) result = Ok 'a | Err "'x error" | Panic

text \<open>
  A caller-supplied function is a Go closure: it may read and change what it captured
  (the tests count its calls). The captured environment is the world \<open>'w\<close>, threaded
  through every call, so that "the function was not invoked" is "the world is the same".
\<close>

type_synonym ('a, 'x, 'w) effect = "'w \<Rightarrow> ('x, 'a) result \<times> 'w"

section \<open>Scalar (lazy.go, lines 10-69)\<close>

record ('t, 'x, 'w) LazyScalar =
  isSet :: bool
  "value" :: 't
  fn :: "('t, 'x, 'w) effect option"
  isDirty :: bool

text \<open>\<open>NewLazy\<close> leaves \<open>value\<close> at the zero value of \<open>T\<close>, which is a parameter here.\<close>

definition NewLazy :: "'t \<Rightarrow> ('t, 'x, 'w) effect option \<Rightarrow> ('t, 'x, 'w) LazyScalar" where
  "NewLazy zero f = \<lparr>isSet = False, value = zero, fn = f, isDirty = False\<rparr>"

definition LazyScalar_Get ::
  "('t, 'x, 'w) LazyScalar \<Rightarrow> 'w \<Rightarrow> ('x, 't) result \<times> ('t, 'x, 'w) LazyScalar \<times> 'w" where
  "LazyScalar_Get v w =
     (if isSet v then (Ok (value v), v, w)
      else (case fn v of
        None \<Rightarrow> (Panic, v, w)
      | Some f \<Rightarrow>
          (case f w of
            (Err err, w') \<Rightarrow> (Err err, v, w')
          | (Panic, w') \<Rightarrow> (Panic, v, w')
          | (Ok val, w') \<Rightarrow> (Ok val, v\<lparr>value := val, isSet := True\<rparr>, w'))))"

definition LazyScalar_Set :: "'t \<Rightarrow> ('t, 'x, 'w) LazyScalar \<Rightarrow> ('t, 'x, 'w) LazyScalar" where
  "LazyScalar_Set val v = v\<lparr>value := val, isSet := True, isDirty := True\<rparr>"

record 't Change =
  Value :: 't

definition LazyScalar_Change :: "('t, 'x, 'w) LazyScalar \<Rightarrow> 't Change option" where
  "LazyScalar_Change v = (if isDirty v then Some \<lparr>Value = value v\<rparr> else None)"

text \<open>\<open>Scalar\<close> embeds \<open>LazyScalar\<close> and adds no field.\<close>

type_synonym ('t, 'x, 'w) Scalar = "('t, 'x, 'w) LazyScalar"

definition New :: "'t \<Rightarrow> ('t, 'x, 'w) Scalar" where
  "New val = \<lparr>isSet = True, value = val, fn = None, isDirty = False\<rparr>"

definition Scalar_Get :: "('t, 'x, 'w) Scalar \<Rightarrow> 't" where
  "Scalar_Get e = value e"

section \<open>The insertion-ordered map\<close>

text \<open>
  Modelled from the spec: \<open>linkedmap.Map\<close> of the library github.com/quintans/ds, which
  the package imports and which is not part of this repository. The spec's section 6 asks of
  it: get, put, delete, clear, and iteration over values and entries in the order of each
  key's first put, an update keeping the key's place. It is the list of the entries in that
  order; a key that is deleted and put again goes to the end.
\<close>

type_synonym ('k, 'v) linkedmap = "('k \<times> 'v) list"

definition linkedmap_New :: "('k, 'v) linkedmap" where
  "linkedmap_New = []"

definition linkedmap_Get :: "('k, 'v) linkedmap \<Rightarrow> 'k \<Rightarrow> 'v option" where
  "linkedmap_Get m k = map_of m k"

fun linkedmap_Put :: "'k \<Rightarrow> 'v \<Rightarrow> ('k, 'v) linkedmap \<Rightarrow> ('k, 'v) linkedmap" where
  "linkedmap_Put k v [] = [(k, v)]"
| "linkedmap_Put k v (e # m) = (if fst e = k then (k, v) # m else e # linkedmap_Put k v m)"

definition linkedmap_Delete :: "'k \<Rightarrow> ('k, 'v) linkedmap \<Rightarrow> ('k, 'v) linkedmap" where
  "linkedmap_Delete k m = filter (\<lambda>e. fst e \<noteq> k) m"

definition linkedmap_Clear :: "('k, 'v) linkedmap \<Rightarrow> ('k, 'v) linkedmap" where
  "linkedmap_Clear m = []"

definition linkedmap_Values :: "('k, 'v) linkedmap \<Rightarrow> 'v list" where
  "linkedmap_Values m = map snd m"

definition linkedmap_Entries :: "('k, 'v) linkedmap \<Rightarrow> ('k \<times> 'v) list" where
  "linkedmap_Entries m = m"

text \<open>The map holds each key once; every operation above keeps it so.\<close>

definition linkedmap_ok :: "('k, 'v) linkedmap \<Rightarrow> bool" where
  "linkedmap_ok m = distinct (map fst m)"

section \<open>Lazy Slice (lazy.go, lines 71-286)\<close>

datatype Status = Unchanged | Added | Removed | Modified | Absent

text \<open>
  \<open>Identifiable\<close> is the constraint on \<open>T\<close>: a method \<open>ID\<close>. Every function that calls it
  takes it as its first argument \<open>ident\<close>; a function that declares \<open>var zero\<close> or builds an
  \<open>Item\<close> without a value takes the zero value of that type as \<open>zero\<close>.
\<close>

record 't Item =
  "value" :: 't
  status :: Status

record ('t, 'i, 'x, 'w) LazySlice =
  isSet :: bool
  isReset :: bool
  fetched :: "('i, 't Item) linkedmap"
  fn :: "('i \<Rightarrow> ('t list, 'x, 'w) effect) option"

definition NewLazySlice ::
  "('i \<Rightarrow> ('t list, 'x, 'w) effect) option \<Rightarrow> ('t, 'i, 'x, 'w) LazySlice" where
  "NewLazySlice f = \<lparr>isSet = False, isReset = False, fetched = linkedmap_New, fn = f\<rparr>"

text \<open>
  An \<open>iter.Seq\<close> is the list of what it yields when it is run to its end at once; a
  consumer that stops early reads a prefix of it.
\<close>

fun filterRemoved :: "'t Item list \<Rightarrow> 't list" where
  "filterRemoved [] = []"
| "filterRemoved (v # it) =
     (if status v = Removed then filterRemoved it else value v # filterRemoved it)"

text \<open>The loop of \<open>GetAll\<close> over the fetched values (lines 118-125).\<close>

fun GetAll_loop ::
  "('t \<Rightarrow> 'i) \<Rightarrow> 't list \<Rightarrow> ('i, 't Item) linkedmap \<Rightarrow> ('i, 't Item) linkedmap" where
  "GetAll_loop ident [] m = m"
| "GetAll_loop ident (v # vs) m =
     GetAll_loop ident vs
       (case linkedmap_Get m (ident v) of
         None \<Rightarrow> linkedmap_Put (ident v) \<lparr>value = v, status = Unchanged\<rparr> m
       | Some item \<Rightarrow>
           if status item = Added
           then linkedmap_Put (ident v) \<lparr>value = value item, status = Modified\<rparr> m
           else m)"

definition LazySlice_GetAll ::
  "('t \<Rightarrow> 'i) \<Rightarrow> 'i \<Rightarrow> ('t, 'i, 'x, 'w) LazySlice \<Rightarrow> 'w
     \<Rightarrow> ('x, 't list) result \<times> ('t, 'i, 'x, 'w) LazySlice \<times> 'w" where
  "LazySlice_GetAll ident zero s w =
     (if isSet s then (Ok (filterRemoved (linkedmap_Values (fetched s))), s, w)
      else (case fn s of
        None \<Rightarrow> (Panic, s, w)
      | Some f \<Rightarrow>
          (case f zero w of
            (Err err, w') \<Rightarrow> (Err err, s, w')
          | (Panic, w') \<Rightarrow> (Panic, s, w')
          | (Ok vs, w') \<Rightarrow>
              (let s' = s\<lparr>fetched := GetAll_loop ident vs (fetched s), isSet := True\<rparr>
               in (Ok (filterRemoved (linkedmap_Values (fetched s'))), s', w')))))"

definition LazySlice_Get ::
  "('t \<Rightarrow> 'i) \<Rightarrow> 't \<Rightarrow> 'i \<Rightarrow> ('t, 'i, 'x, 'w) LazySlice \<Rightarrow> 'w
     \<Rightarrow> ('x, 't) result \<times> ('t, 'i, 'x, 'w) LazySlice \<times> 'w" where
  "LazySlice_Get ident zero i s w =
     (case linkedmap_Get (fetched s) i of
       Some item \<Rightarrow>
         if status item = Absent \<or> status item = Removed then (Err ErrNotFound, s, w)
         else (Ok (value item), s, w)
     | None \<Rightarrow>
         if isSet s then (Err ErrNotFound, s, w)
         else (case fn s of
           None \<Rightarrow> (Panic, s, w)
         | Some f \<Rightarrow>
             (case f i w of
               (Err err, w') \<Rightarrow> (Err err, s, w')
             | (Panic, w') \<Rightarrow> (Panic, s, w')
             | (Ok [], w') \<Rightarrow>
                 (Err ErrNotFound,
                  s\<lparr>fetched := linkedmap_Put i \<lparr>value = zero, status = Absent\<rparr> (fetched s)\<rparr>,
                  w')
             | (Ok (v0 # _), w') \<Rightarrow>
                 (Ok v0,
                  s\<lparr>fetched :=
                      linkedmap_Put (ident v0) \<lparr>value = v0, status = Unchanged\<rparr> (fetched s)\<rparr>,
                  w'))))"

fun SetAll_loop ::
  "('t \<Rightarrow> 'i) \<Rightarrow> 't list \<Rightarrow> ('i, 't Item) linkedmap \<Rightarrow> ('i, 't Item) linkedmap" where
  "SetAll_loop ident [] m = m"
| "SetAll_loop ident (v # vs) m =
     SetAll_loop ident vs (linkedmap_Put (ident v) \<lparr>value = v, status = Added\<rparr> m)"

definition LazySlice_SetAll ::
  "('t \<Rightarrow> 'i) \<Rightarrow> 't list \<Rightarrow> ('t, 'i, 'x, 'w) LazySlice \<Rightarrow> ('t, 'i, 'x, 'w) LazySlice" where
  "LazySlice_SetAll ident vs s =
     s\<lparr>isReset := True, isSet := True, fetched := SetAll_loop ident vs linkedmap_New\<rparr>"

definition LazySlice_Set ::
  "('t \<Rightarrow> 'i) \<Rightarrow> 't \<Rightarrow> ('t, 'i, 'x, 'w) LazySlice \<Rightarrow> ('t, 'i, 'x, 'w) LazySlice" where
  "LazySlice_Set ident v s =
     (case linkedmap_Get (fetched s) (ident v) of
       Some item \<Rightarrow>
         (let st = status item;
              st' = (if st = Absent \<or> st = Added then Added
                     else if st = Removed \<or> st = Unchanged then Modified
                     else st)
          in s\<lparr>fetched := linkedmap_Put (ident v) \<lparr>value = v, status = st'\<rparr> (fetched s)\<rparr>)
     | None \<Rightarrow>
         s\<lparr>fetched := linkedmap_Put (ident v) \<lparr>value = v, status = Added\<rparr> (fetched s)\<rparr>)"

definition LazySlice_Clear :: "('t, 'i, 'x, 'w) LazySlice \<Rightarrow> ('t, 'i, 'x, 'w) LazySlice" where
  "LazySlice_Clear s = s\<lparr>isSet := True, isReset := True, fetched := linkedmap_Clear (fetched s)\<rparr>"

text \<open>\<open>Remove\<close> returns its boolean and the collection it leaves.\<close>

definition LazySlice_Remove ::
  "'t \<Rightarrow> 'i \<Rightarrow> ('t, 'i, 'x, 'w) LazySlice \<Rightarrow> bool \<times> ('t, 'i, 'x, 'w) LazySlice" where
  "LazySlice_Remove zero i s =
     (let got = linkedmap_Get (fetched s) i;
          exists = (got \<noteq> None)
      in if exists \<and> map_option status got = Some Added
         then (True, s\<lparr>fetched := linkedmap_Delete i (fetched s)\<rparr>)
         else (exists,
               s\<lparr>fetched := linkedmap_Put i \<lparr>value = zero, status = Removed\<rparr> (fetched s)\<rparr>))"

definition LazySlice_IsReset :: "('t, 'i, 'x, 'w) LazySlice \<Rightarrow> bool" where
  "LazySlice_IsReset s = isReset s"

record ('i, 't) SliceChange =
  ID :: 'i
  Value :: 't
  Status :: Status

record ('t, 'i) Changes =
  Reset :: bool
  Items :: "('i, 't) SliceChange list"

text \<open>The loop of \<open>changesIterator\<close> over the entries (lines 242-254).\<close>

fun changesIterator_loop :: "('i \<times> 't Item) list \<Rightarrow> ('i, 't) SliceChange list" where
  "changesIterator_loop [] = []"
| "changesIterator_loop ((k, v) # it) =
     (if status v = Unchanged then changesIterator_loop it
      else \<lparr>ID = k, Value = value v, Status = status v\<rparr> # changesIterator_loop it)"

definition LazySlice_changesIterator ::
  "('t, 'i, 'x, 'w) LazySlice \<Rightarrow> ('i, 't) SliceChange list" where
  "LazySlice_changesIterator s = changesIterator_loop (linkedmap_Entries (fetched s))"

definition LazySlice_Changes :: "('t, 'i, 'x, 'w) LazySlice \<Rightarrow> ('t, 'i) Changes" where
  "LazySlice_Changes s = \<lparr>Reset = isReset s, Items = LazySlice_changesIterator s\<rparr>"

text \<open>
  \<open>Slice\<close> embeds \<open>LazySlice\<close> and adds no field; \<open>NewSlice\<close> leaves \<open>isReset\<close> false and
  \<open>fn\<close> nil.
\<close>

type_synonym ('t, 'i, 'x, 'w) Slice = "('t, 'i, 'x, 'w) LazySlice"

fun NewSlice_loop ::
  "('t \<Rightarrow> 'i) \<Rightarrow> 't list \<Rightarrow> ('i, 't Item) linkedmap \<Rightarrow> ('i, 't Item) linkedmap" where
  "NewSlice_loop ident [] m = m"
| "NewSlice_loop ident (v # vs) m =
     NewSlice_loop ident vs (linkedmap_Put (ident v) \<lparr>value = v, status = Unchanged\<rparr> m)"

definition NewSlice :: "('t \<Rightarrow> 'i) \<Rightarrow> 't list \<Rightarrow> ('t, 'i, 'x, 'w) Slice" where
  "NewSlice ident vs =
     \<lparr>isSet = True, isReset = False, fetched = NewSlice_loop ident vs linkedmap_New, fn = None\<rparr>"

definition Slice_GetAll :: "('t, 'i, 'x, 'w) Slice \<Rightarrow> 't list" where
  "Slice_GetAll e = filterRemoved (linkedmap_Values (fetched e))"

definition Slice_Get :: "'t \<Rightarrow> 'i \<Rightarrow> ('t, 'i, 'x, 'w) Slice \<Rightarrow> 't" where
  "Slice_Get zero i e =
     (case linkedmap_Get (fetched e) i of Some item \<Rightarrow> value item | None \<Rightarrow> zero)"

section \<open>Invariants of the store\<close>

text \<open>
  Every entry whose value is present (its status is neither \<open>Removed\<close> nor \<open>Absent\<close>) is
  stored under the identity of its value.
\<close>

definition key_inv :: "('t \<Rightarrow> 'i) \<Rightarrow> ('t, 'i, 'x, 'w) LazySlice \<Rightarrow> bool" where
  "key_inv ident s =
     (\<forall>(k, item) \<in> set (fetched s).
        status item \<noteq> Removed \<and> status item \<noteq> Absent \<longrightarrow> ident (value item) = k)"

text \<open>Every tombstone (status \<open>Removed\<close> or \<open>Absent\<close>) holds the zero value of \<open>T\<close>.\<close>

definition tomb_inv :: "'t \<Rightarrow> ('t, 'i, 'x, 'w) LazySlice \<Rightarrow> bool" where
  "tomb_inv zero s =
     (\<forall>(k, item) \<in> set (fetched s).
        status item = Removed \<or> status item = Absent \<longrightarrow> value item = zero)"

section \<open>Sequences of calls\<close>

text \<open>
  One call of a method of \<open>LazySlice\<close> that can change it, and the collection and the world
  that a sequence of such calls leaves; results are dropped.
\<close>

datatype ('t, 'i) call =
  CallSet 't | CallSetAll "'t list" | CallRemove 'i | CallClear | CallGet 'i | CallGetAll

fun perform ::
  "('t \<Rightarrow> 'i) \<Rightarrow> 'i \<Rightarrow> 't \<Rightarrow> ('t, 'i) call \<Rightarrow> ('t, 'i, 'x, 'w) LazySlice \<times> 'w
     \<Rightarrow> ('t, 'i, 'x, 'w) LazySlice \<times> 'w" where
  "perform ident zeroI zeroT (CallSet v) (s, w) = (LazySlice_Set ident v s, w)"
| "perform ident zeroI zeroT (CallSetAll vs) (s, w) = (LazySlice_SetAll ident vs s, w)"
| "perform ident zeroI zeroT (CallRemove i) (s, w) = (snd (LazySlice_Remove zeroT i s), w)"
| "perform ident zeroI zeroT CallClear (s, w) = (LazySlice_Clear s, w)"
| "perform ident zeroI zeroT (CallGet i) (s, w) = snd (LazySlice_Get ident zeroT i s w)"
| "perform ident zeroI zeroT CallGetAll (s, w) = snd (LazySlice_GetAll ident zeroI s w)"

definition run ::
  "('t \<Rightarrow> 'i) \<Rightarrow> 'i \<Rightarrow> 't \<Rightarrow> ('t, 'i) call list \<Rightarrow> ('t, 'i, 'x, 'w) LazySlice \<times> 'w
     \<Rightarrow> ('t, 'i, 'x, 'w) LazySlice \<times> 'w" where
  "run ident zeroI zeroT cs sw = fold (perform ident zeroI zeroT) cs sw"

section \<open>Concrete collections\<close>

text \<open>
  The entities of the spec's scenarios: an identity and a text, \<open>{id: 2, val: "x"}\<close>. The
  zero identity is 0 (it asks for every item), the zero entity is \<open>(0, [])\<close>.
\<close>

type_synonym entity = "nat \<times> string"

text \<open>
  \<open>fetcher\<close> of lazy_test.go (lines 543-555): everything for the zero identity, else the
  entity with that identity, else the error \<open>ErrNotFound\<close>.
\<close>

definition fetcher :: "entity list \<Rightarrow> nat \<Rightarrow> (string, entity list) result" where
  "fetcher ents i =
     (if i = 0 then Ok ents
      else case find (\<lambda>e. fst e = i) ents of Some e \<Rightarrow> Ok [e] | None \<Rightarrow> Err ErrNotFound)"

text \<open>
  A fetch function as the spec's section 6 asks for it: an identity that does not exist
  gives the empty list.
\<close>

definition lookup :: "entity list \<Rightarrow> nat \<Rightarrow> (string, entity list) result" where
  "lookup ents i = (if i = 0 then Ok ents else Ok (filter (\<lambda>e. fst e = i) ents))"

text \<open>
  The closures of the tests count their calls (\<open>callCount++\<close>): the world is the count.
  \<open>flaky\<close> fails on its first call and answers from then on.
\<close>

definition counted :: "('i \<Rightarrow> (string, 'a) result) \<Rightarrow> 'i \<Rightarrow> ('a, string, nat) effect" where
  "counted f i n = (f i, Suc n)"

definition flaky :: "('i \<Rightarrow> (string, 'a) result) \<Rightarrow> 'i \<Rightarrow> ('a, string, nat) effect" where
  "flaky f i n = (if n = 0 then Err (Foreign ''loading failed'') else f i, Suc n)"

text \<open>
  A collection that is not loaded, over a fetch function or over \<open>lookup\<close> in a counted
  baseline, and a loaded one built from its values.
\<close>

definition lazy_with ::
  "(nat \<Rightarrow> (entity list, string, nat) effect) \<Rightarrow> (entity, nat, string, nat) LazySlice" where
  "lazy_with f = NewLazySlice (Some f)"

definition lazy_of :: "entity list \<Rightarrow> (entity, nat, string, nat) LazySlice" where
  "lazy_of ents = lazy_with (counted (lookup ents))"

definition eager_of :: "entity list \<Rightarrow> (entity, nat, string, nat) Slice" where
  "eager_of ents = NewSlice fst ents"

section \<open>Facts about the insertion-ordered map\<close>

lemma linkedmap_Get_Put:
  "linkedmap_Get (linkedmap_Put k v m) = (linkedmap_Get m)(k \<mapsto> v)"
  by (induction m) (auto simp: linkedmap_Get_def fun_eq_iff)

lemma linkedmap_Get_Delete:
  "linkedmap_Get (linkedmap_Delete k m) = (linkedmap_Get m)(k := None)"
  by (induction m) (auto simp: linkedmap_Get_def linkedmap_Delete_def fun_eq_iff)

lemma linkedmap_Get_None_iff: "linkedmap_Get m k = None \<longleftrightarrow> k \<notin> fst ` set m"
  by (simp add: linkedmap_Get_def map_of_eq_None_iff)

lemma linkedmap_Get_Nil: "linkedmap_Get [] k = None"
  by (simp add: linkedmap_Get_def)

lemma linkedmap_Get_in_set: "linkedmap_Get m k = Some v \<Longrightarrow> (k, v) \<in> set m"
  by (simp add: linkedmap_Get_def map_of_SomeD)

lemma keys_linkedmap_Put:
  "map fst (linkedmap_Put k v m) = (if k \<in> fst ` set m then map fst m else map fst m @ [k])"
  by (induction m) auto

lemma keys_linkedmap_Delete: "map fst (linkedmap_Delete k m) = removeAll k (map fst m)"
  by (induction m) (auto simp: linkedmap_Delete_def)

lemma linkedmap_ok_Put: "linkedmap_ok m \<Longrightarrow> linkedmap_ok (linkedmap_Put k v m)"
  by (simp add: linkedmap_ok_def keys_linkedmap_Put)

lemma linkedmap_ok_Delete: "linkedmap_ok m \<Longrightarrow> linkedmap_ok (linkedmap_Delete k m)"
  by (simp add: linkedmap_ok_def keys_linkedmap_Delete distinct_removeAll)

lemma set_linkedmap_Put_subset: "set (linkedmap_Put k v m) \<subseteq> insert (k, v) (set m)"
  by (induction m) auto

lemma linkedmap_Put_mem: "(k, v) \<in> set (linkedmap_Put k v m)"
  by (induction m) auto

lemma linkedmap_Put_other_mem:
  "k' \<noteq> k \<Longrightarrow> (k', v') \<in> set (linkedmap_Put k v m) \<longleftrightarrow> (k', v') \<in> set m"
  by (induction m) auto

lemma linkedmap_Put_same_key:
  "linkedmap_ok m \<Longrightarrow> (k, v') \<in> set (linkedmap_Put k v m) \<Longrightarrow> v' = v"
  by (induction m) (auto simp: linkedmap_ok_def rev_image_eqI split: if_splits)

lemma linkedmap_Delete_Put: "linkedmap_Delete k (linkedmap_Put k v m) = linkedmap_Delete k m"
  by (induction m) (auto simp: linkedmap_Delete_def)

lemma linkedmap_Delete_absent: "linkedmap_Get m k = None \<Longrightarrow> linkedmap_Delete k m = m"
  by (induction m) (auto simp: linkedmap_Delete_def linkedmap_Get_def split: if_splits)

lemma set_linkedmap_Delete: "set (linkedmap_Delete k m) = {e \<in> set m. fst e \<noteq> k}"
  by (auto simp: linkedmap_Delete_def)

section \<open>The two views as filters\<close>

lemma filterRemoved_eq:
  "filterRemoved its = map value (filter (\<lambda>item. status item \<noteq> Removed) its)"
  by (induction its) auto

lemma changesIterator_loop_eq:
  "changesIterator_loop es =
     map (\<lambda>(k, item). \<lparr>ID = k, Value = value item, Status = status item\<rparr>)
       (filter (\<lambda>(k, item). status item \<noteq> Unchanged) es)"
  by (induction es rule: changesIterator_loop.induct) auto

lemma changesIterator_loop_set:
  "set (changesIterator_loop es) =
     {\<lparr>ID = k, Value = value item, Status = status item\<rparr> | k item.
        (k, item) \<in> set es \<and> status item \<noteq> Unchanged}"
  by (auto simp: changesIterator_loop_eq)

section \<open>The loops\<close>

lemma find_append_cases:
  "find P (xs @ ys) = (case find P xs of None \<Rightarrow> find P ys | Some x \<Rightarrow> Some x)"
  by (induction xs) auto

lemma keyset_linkedmap_Put: "fst ` set (linkedmap_Put k v m) = insert k (fst ` set m)"
  by (induction m) auto

lemma linkedmap_Put_absent: "k \<notin> fst ` set m \<Longrightarrow> linkedmap_Put k v m = m @ [(k, v)]"
  by (induction m) auto

lemma GetAll_loop_Get:
  "linkedmap_Get (GetAll_loop ident vs m) i =
     (case find (\<lambda>v. ident v = i) vs of
        None \<Rightarrow> linkedmap_Get m i
      | Some v \<Rightarrow>
          (case linkedmap_Get m i of
             None \<Rightarrow> Some \<lparr>value = v, status = Unchanged\<rparr>
           | Some item \<Rightarrow>
               if status item = Added then Some \<lparr>value = value item, status = Modified\<rparr>
               else Some item))"
proof (induction vs arbitrary: m)
  case Nil
  show ?case by simp
next
  case (Cons v vs)
  show ?case
    by (simp add: Cons.IH linkedmap_Get_Put split: option.splits)
qed

lemma SetAll_loop_Get:
  "linkedmap_Get (SetAll_loop ident vs m) i =
     (case find (\<lambda>v. ident v = i) (rev vs) of
        None \<Rightarrow> linkedmap_Get m i
      | Some v \<Rightarrow> Some \<lparr>value = v, status = Added\<rparr>)"
proof (induction vs arbitrary: m)
  case Nil
  show ?case by simp
next
  case (Cons v vs)
  show ?case
    by (simp add: Cons.IH linkedmap_Get_Put find_append_cases split: option.splits)
qed

lemma remdups_snoc: "remdups (ys @ [a]) = remdups (filter (\<lambda>x. x \<noteq> a) ys) @ [a]"
  by (induction ys) auto

lemma first_occurrence_Cons:
  "rev (remdups (rev (a # xs))) = a # rev (remdups (rev (filter (\<lambda>x. x \<noteq> a) xs)))"
  by (simp add: remdups_snoc rev_filter)

lemma SetAll_loop_keys:
  "map fst (SetAll_loop ident vs m) =
     map fst m @ rev (remdups (rev (filter (\<lambda>i. i \<notin> fst ` set m) (map ident vs))))"
proof (induction vs arbitrary: m)
  case Nil
  show ?case by simp
next
  case (Cons v vs)
  show ?case
  proof (cases "ident v \<in> fst ` set m")
    case True
    then show ?thesis
      by (simp add: Cons.IH keys_linkedmap_Put keyset_linkedmap_Put insert_absorb del: set_map)
  next
    case False
    then show ?thesis
      by (simp add: Cons.IH keys_linkedmap_Put keyset_linkedmap_Put first_occurrence_Cons
          conj_commute del: rev.simps set_map)
  qed
qed

lemma SetAll_loop_distinct:
  "distinct (map ident vs) \<Longrightarrow> ident ` set vs \<inter> fst ` set m = {} \<Longrightarrow>
   SetAll_loop ident vs m = m @ map (\<lambda>v. (ident v, \<lparr>value = v, status = Added\<rparr>)) vs"
proof (induction vs arbitrary: m)
  case Nil
  show ?case by simp
next
  case (Cons v vs)
  from Cons.prems have absent: "ident v \<notin> fst ` set m" by auto
  from Cons.prems have
    "ident ` set vs \<inter> fst ` set (m @ [(ident v, \<lparr>value = v, status = Added\<rparr>)]) = {}"
    by auto
  with Cons.prems absent show ?case
    by (simp add: linkedmap_Put_absent Cons.IH)
qed

lemma linkedmap_Put_all:
  "\<forall>e \<in> set m. P e \<Longrightarrow> P (k, v) \<Longrightarrow> \<forall>e \<in> set (linkedmap_Put k v m). P e"
  using set_linkedmap_Put_subset [of k v m] by auto

lemma SetAll_loop_all:
  assumes "\<forall>e \<in> set m. P e" and "\<And>v. P (ident v, \<lparr>value = v, status = Added\<rparr>)"
  shows "\<forall>e \<in> set (SetAll_loop ident vs m). P e"
  using assms(1)
proof (induction vs arbitrary: m)
  case Nil
  then show ?case by simp
next
  case (Cons v vs)
  have "\<forall>e \<in> set (linkedmap_Put (ident v) \<lparr>value = v, status = Added\<rparr> m). P e"
    using Cons.prems assms(2) by (rule linkedmap_Put_all)
  then have "\<forall>e \<in> set (SetAll_loop ident vs
      (linkedmap_Put (ident v) \<lparr>value = v, status = Added\<rparr> m)). P e"
    by (rule Cons.IH)
  then show ?case by (simp only: SetAll_loop.simps)
qed

lemma NewSlice_loop_all:
  assumes "\<forall>e \<in> set m. P e" and "\<And>v. P (ident v, \<lparr>value = v, status = Unchanged\<rparr>)"
  shows "\<forall>e \<in> set (NewSlice_loop ident vs m). P e"
  using assms(1)
proof (induction vs arbitrary: m)
  case Nil
  then show ?case by simp
next
  case (Cons v vs)
  have "\<forall>e \<in> set (linkedmap_Put (ident v) \<lparr>value = v, status = Unchanged\<rparr> m). P e"
    using Cons.prems assms(2) by (rule linkedmap_Put_all)
  then have "\<forall>e \<in> set (NewSlice_loop ident vs
      (linkedmap_Put (ident v) \<lparr>value = v, status = Unchanged\<rparr> m)). P e"
    by (rule Cons.IH)
  then show ?case by (simp only: NewSlice_loop.simps)
qed

lemma GetAll_loop_all:
  assumes "\<forall>e \<in> set m. P e"
    and "\<And>v. P (ident v, \<lparr>value = v, status = Unchanged\<rparr>)"
    and "\<And>k item. P (k, item) \<Longrightarrow> status item = Added \<Longrightarrow>
           P (k, \<lparr>value = value item, status = Modified\<rparr>)"
  shows "\<forall>e \<in> set (GetAll_loop ident vs m). P e"
  using assms(1)
proof (induction vs arbitrary: m)
  case Nil
  then show ?case by simp
next
  case (Cons v vs)
  let ?m' = "case linkedmap_Get m (ident v) of
         None \<Rightarrow> linkedmap_Put (ident v) \<lparr>value = v, status = Unchanged\<rparr> m
       | Some item \<Rightarrow>
           if status item = Added
           then linkedmap_Put (ident v) \<lparr>value = value item, status = Modified\<rparr> m
           else m"
  have "\<forall>e \<in> set ?m'. P e"
  proof (cases "linkedmap_Get m (ident v)")
    case None
    have "\<forall>e \<in> set (linkedmap_Put (ident v) \<lparr>value = v, status = Unchanged\<rparr> m). P e"
      using Cons.prems assms(2) by (rule linkedmap_Put_all)
    with None show ?thesis by simp
  next
    case (Some item)
    then have "(ident v, item) \<in> set m" by (rule linkedmap_Get_in_set)
    with Cons.prems have here: "P (ident v, item)" by blast
    show ?thesis
    proof (cases "status item = Added")
      case True
      with here have "P (ident v, \<lparr>value = value item, status = Modified\<rparr>)"
        by (rule assms(3))
      with Cons.prems
      have "\<forall>e \<in> set (linkedmap_Put (ident v) \<lparr>value = value item, status = Modified\<rparr> m). P e"
        by (rule linkedmap_Put_all)
      with Some True show ?thesis by simp
    next
      case False
      with Some Cons.prems show ?thesis by simp
    qed
  qed
  then have "\<forall>e \<in> set (GetAll_loop ident vs ?m'). P e" by (rule Cons.IH)
  then show ?case by (simp only: GetAll_loop.simps)
qed

lemma SetAll_loop_ok: "linkedmap_ok m \<Longrightarrow> linkedmap_ok (SetAll_loop ident vs m)"
  by (induction vs arbitrary: m) (simp_all add: linkedmap_ok_Put)

lemma NewSlice_loop_ok: "linkedmap_ok m \<Longrightarrow> linkedmap_ok (NewSlice_loop ident vs m)"
  by (induction vs arbitrary: m) (simp_all add: linkedmap_ok_Put)

lemma GetAll_loop_ok: "linkedmap_ok m \<Longrightarrow> linkedmap_ok (GetAll_loop ident vs m)"
  by (induction vs arbitrary: m) (simp_all add: linkedmap_ok_Put split: option.splits)

section \<open>The invariants, call by call\<close>

lemma linkedmap_Put_memD:
  "e \<in> set (linkedmap_Put k v m) \<Longrightarrow> e = (k, v) \<or> e \<in> set m"
  using set_linkedmap_Put_subset [of k v m] by auto

lemma SetAll_loop_keyed:
  "(k, item) \<in> set (SetAll_loop ident vs []) \<Longrightarrow> status item = Added \<and> ident (value item) = k"
  using SetAll_loop_all
    [of "[]" "\<lambda>(k, item). status item = Added \<and> ident (value item) = k" ident vs]
  by auto

lemma NewSlice_loop_keyed:
  "(k, item) \<in> set (NewSlice_loop ident vs []) \<Longrightarrow>
     status item = Unchanged \<and> ident (value item) = k"
  using NewSlice_loop_all
    [of "[]" "\<lambda>(k, item). status item = Unchanged \<and> ident (value item) = k" ident vs]
  by auto

lemma GetAll_loop_keyed:
  assumes "\<forall>(k, item) \<in> set m.
             status item \<noteq> Removed \<and> status item \<noteq> Absent \<longrightarrow> ident (value item) = k"
  shows "\<forall>(k, item) \<in> set (GetAll_loop ident vs m).
             status item \<noteq> Removed \<and> status item \<noteq> Absent \<longrightarrow> ident (value item) = k"
  by (rule GetAll_loop_all) (use assms in auto)


lemma key_inv_Set: "key_inv ident s \<Longrightarrow> key_inv ident (LazySlice_Set ident v s)"
  unfolding key_inv_def LazySlice_Set_def
  by (auto simp: Let_def split: option.splits dest!: linkedmap_Put_memD)

lemma key_inv_SetAll: "key_inv ident (LazySlice_SetAll ident vs s)"
  unfolding key_inv_def LazySlice_SetAll_def
  by (auto simp: linkedmap_New_def dest: SetAll_loop_keyed)

lemma key_inv_Clear: "key_inv ident (LazySlice_Clear s)"
  by (simp add: key_inv_def LazySlice_Clear_def linkedmap_Clear_def)

lemma key_inv_Remove: "key_inv ident s \<Longrightarrow> key_inv ident (snd (LazySlice_Remove zero i s))"
  unfolding key_inv_def LazySlice_Remove_def
  by (auto simp: Let_def set_linkedmap_Delete dest!: linkedmap_Put_memD)

lemma key_inv_Get:
  "key_inv ident s \<Longrightarrow> key_inv ident (fst (snd (LazySlice_Get ident zero i s w)))"
  unfolding key_inv_def LazySlice_Get_def
  by (auto split: option.splits prod.splits result.splits list.splits
      dest!: linkedmap_Put_memD)

lemma GetAll_fetched:
  "\<exists>vs. fetched (fst (snd (LazySlice_GetAll ident zero s w))) = GetAll_loop ident vs (fetched s)"
proof (cases "fetched (fst (snd (LazySlice_GetAll ident zero s w))) = fetched s")
  case True
  then have
    "fetched (fst (snd (LazySlice_GetAll ident zero s w))) = GetAll_loop ident [] (fetched s)"
    by simp
  then show ?thesis ..
next
  case False
  then show ?thesis
    by (auto simp: LazySlice_GetAll_def Let_def
        split: if_splits option.splits prod.splits result.splits)
qed

lemma key_inv_GetAll:
  assumes "key_inv ident s"
  shows "key_inv ident (fst (snd (LazySlice_GetAll ident zero s w)))"
proof -
  obtain vs where
    "fetched (fst (snd (LazySlice_GetAll ident zero s w))) = GetAll_loop ident vs (fetched s)"
    using GetAll_fetched [of ident zero s w] by blast
  with GetAll_loop_keyed [of "fetched s" ident vs] assms show ?thesis
    by (simp add: key_inv_def)
qed

lemma key_inv_NewLazySlice: "key_inv ident (NewLazySlice f)"
  by (simp add: key_inv_def NewLazySlice_def linkedmap_New_def)

lemma key_inv_NewSlice: "key_inv ident (NewSlice ident vs)"
  unfolding key_inv_def NewSlice_def
  by (auto simp: linkedmap_New_def dest: NewSlice_loop_keyed)


lemma key_inv_perform:
  "key_inv ident (fst sw) \<Longrightarrow> key_inv ident (fst (perform ident zeroI zeroT c sw))"
  by (cases sw; cases c)
    (simp_all add: key_inv_Set key_inv_SetAll key_inv_Clear key_inv_Remove key_inv_Get
      key_inv_GetAll)

lemma key_inv_run:
  "key_inv ident (fst sw) \<Longrightarrow> key_inv ident (fst (run ident zeroI zeroT cs sw))"
  unfolding run_def by (induction cs arbitrary: sw) (simp_all add: key_inv_perform)

lemma Get_fetched:
  "fetched (fst (snd (LazySlice_Get ident zero i s w))) = fetched s
   \<or> fetched (fst (snd (LazySlice_Get ident zero i s w))) =
       linkedmap_Put i \<lparr>value = zero, status = Absent\<rparr> (fetched s)
   \<or> (\<exists>v0. fetched (fst (snd (LazySlice_Get ident zero i s w))) =
       linkedmap_Put (ident v0) \<lparr>value = v0, status = Unchanged\<rparr> (fetched s))"
  by (auto simp: LazySlice_Get_def split: option.splits prod.splits result.splits list.splits)

lemma SetAll_loop_Added:
  "(k, item) \<in> set (SetAll_loop ident vs []) \<Longrightarrow> status item = Added"
  by (rule SetAll_loop_keyed [THEN conjunct1])

lemma GetAll_loop_tomb:
  assumes "\<forall>(k, item) \<in> set m.
             status item = Removed \<or> status item = Absent \<longrightarrow> value item = zero"
  shows "\<forall>(k, item) \<in> set (GetAll_loop ident vs m).
             status item = Removed \<or> status item = Absent \<longrightarrow> value item = zero"
  by (rule GetAll_loop_all) (use assms in auto)

lemma tomb_inv_Set: "tomb_inv zero s \<Longrightarrow> tomb_inv zero (LazySlice_Set ident v s)"
  unfolding tomb_inv_def LazySlice_Set_def
  by (auto simp: Let_def split: option.splits dest!: linkedmap_Put_memD)

lemma tomb_inv_SetAll: "tomb_inv zero (LazySlice_SetAll ident vs s)"
  unfolding tomb_inv_def LazySlice_SetAll_def
  by (auto simp: linkedmap_New_def dest: SetAll_loop_Added)

lemma tomb_inv_Clear: "tomb_inv zero (LazySlice_Clear s)"
  by (simp add: tomb_inv_def LazySlice_Clear_def linkedmap_Clear_def)

lemma tomb_inv_Remove: "tomb_inv zero s \<Longrightarrow> tomb_inv zero (snd (LazySlice_Remove zero i s))"
  unfolding tomb_inv_def LazySlice_Remove_def
  by (auto simp: Let_def set_linkedmap_Delete dest!: linkedmap_Put_memD)

lemma tomb_inv_Get:
  assumes "tomb_inv zero s"
  shows "tomb_inv zero (fst (snd (LazySlice_Get ident zero i s w)))"
  using Get_fetched [of ident zero i s w] assms
  unfolding tomb_inv_def by (auto dest!: linkedmap_Put_memD)

lemma tomb_inv_GetAll:
  assumes "tomb_inv zero s"
  shows "tomb_inv zero (fst (snd (LazySlice_GetAll ident zeroI s w)))"
proof -
  obtain vs where
    "fetched (fst (snd (LazySlice_GetAll ident zeroI s w))) = GetAll_loop ident vs (fetched s)"
    using GetAll_fetched [of ident zeroI s w] by blast
  with GetAll_loop_tomb [of "fetched s" zero ident vs] assms show ?thesis
    by (simp add: tomb_inv_def)
qed

lemma tomb_inv_NewLazySlice: "tomb_inv zero (NewLazySlice f)"
  by (simp add: tomb_inv_def NewLazySlice_def linkedmap_New_def)

lemma tomb_inv_NewSlice: "tomb_inv zero (NewSlice ident vs)"
  unfolding tomb_inv_def NewSlice_def
  by (auto simp: linkedmap_New_def dest: NewSlice_loop_keyed)

lemma tomb_inv_perform:
  "tomb_inv zeroT (fst sw) \<Longrightarrow> tomb_inv zeroT (fst (perform ident zeroI zeroT c sw))"
  by (cases sw; cases c)
    (simp_all add: tomb_inv_Set tomb_inv_SetAll tomb_inv_Clear tomb_inv_Remove tomb_inv_Get
      tomb_inv_GetAll)

lemma tomb_inv_run:
  "tomb_inv zeroT (fst sw) \<Longrightarrow> tomb_inv zeroT (fst (run ident zeroI zeroT cs sw))"
  unfolding run_def by (induction cs arbitrary: sw) (simp_all add: tomb_inv_perform)

text \<open>The model of the map is adequate: no call makes the store hold a key twice.\<close>

lemma linkedmap_ok_Nil: "linkedmap_ok []"
  by (simp add: linkedmap_ok_def)

lemma linkedmap_ok_perform:
  assumes "linkedmap_ok (fetched (fst sw))"
  shows "linkedmap_ok (fetched (fst (perform ident zeroI zeroT c sw)))"
proof (cases sw)
  case (Pair s w)
  show ?thesis
  proof (cases c)
    case (CallSet v)
    with Pair assms show ?thesis
      by (simp add: LazySlice_Set_def Let_def linkedmap_ok_Put split: option.splits)
  next
    case (CallSetAll vs)
    with Pair show ?thesis
      by (simp add: LazySlice_SetAll_def SetAll_loop_ok linkedmap_New_def linkedmap_ok_Nil)
  next
    case (CallRemove i)
    with Pair assms show ?thesis
      by (simp add: LazySlice_Remove_def Let_def linkedmap_ok_Put linkedmap_ok_Delete)
  next
    case CallClear
    with Pair show ?thesis
      by (simp add: LazySlice_Clear_def linkedmap_Clear_def linkedmap_ok_Nil)
  next
    case (CallGet i)
    with Pair assms Get_fetched [of ident zeroT i s w] show ?thesis
      by (auto simp: linkedmap_ok_Put)
  next
    case CallGetAll
    with Pair assms GetAll_fetched [of ident zeroI s w] show ?thesis
      by (auto simp: GetAll_loop_ok)
  qed
qed

lemma linkedmap_ok_run:
  "linkedmap_ok (fetched (fst sw)) \<Longrightarrow>
   linkedmap_ok (fetched (fst (run ident zeroI zeroT cs sw)))"
  unfolding run_def by (induction cs arbitrary: sw) (simp_all add: linkedmap_ok_perform)

lemma linkedmap_ok_constructors:
  "linkedmap_ok (fetched (NewLazySlice f))" "linkedmap_ok (fetched (NewSlice ident vs))"
  by (simp_all add: NewLazySlice_def NewSlice_def NewSlice_loop_ok linkedmap_New_def
      linkedmap_ok_Nil)

text \<open>The definitions that evaluate a concrete collection.\<close>

lemmas concrete_defs =
  lazy_of_def lazy_with_def eager_of_def NewLazySlice_def NewSlice_def linkedmap_New_def
  linkedmap_Get_def counted_def lookup_def fetcher_def flaky_def

section \<open>The claims\<close>

text \<open>
  C1. \<open>Set(v)\<close> stores \<open>v\<close> under the key \<open>v.ID()\<close>, every other key keeping what it had, with
  the status that the prior status of that key decides: untracked, \<open>Absent\<close> or \<open>Added\<close> give
  \<open>Added\<close>; \<open>Unchanged\<close> or \<open>Removed\<close> give \<open>Modified\<close>; \<open>Modified\<close> stays. \<open>Remove(id)\<close>
  deletes the entry when the prior status is \<open>Added\<close> and stores a \<open>Removed\<close> tombstone
  otherwise, also for an untracked or an already removed identity; it returns true exactly
  when the identity was tracked. Neither changes \<open>isSet\<close> or \<open>isReset\<close>.
\<close>

theorem Set_Remove_transitions:
  "linkedmap_Get (fetched (LazySlice_Set ident v s)) =
     (linkedmap_Get (fetched s))(ident v \<mapsto>
        \<lparr>value = v,
         status =
           (case map_option status (linkedmap_Get (fetched s) (ident v)) of
              None \<Rightarrow> Added
            | Some Absent \<Rightarrow> Added
            | Some Added \<Rightarrow> Added
            | Some Unchanged \<Rightarrow> Modified
            | Some Removed \<Rightarrow> Modified
            | Some Modified \<Rightarrow> Modified)\<rparr>)
   \<and> linkedmap_Get (fetched (snd (LazySlice_Remove zero i s))) =
       (if map_option status (linkedmap_Get (fetched s) i) = Some Added
        then (linkedmap_Get (fetched s))(i := None)
        else (linkedmap_Get (fetched s))(i \<mapsto> \<lparr>value = zero, status = Removed\<rparr>))
   \<and> fst (LazySlice_Remove zero i s) = (linkedmap_Get (fetched s) i \<noteq> None)
   \<and> isSet (LazySlice_Set ident v s) = isSet s
   \<and> isReset (LazySlice_Set ident v s) = isReset s
   \<and> isSet (snd (LazySlice_Remove zero i s)) = isSet s
   \<and> isReset (snd (LazySlice_Remove zero i s)) = isReset s"
  by (auto simp: LazySlice_Set_def LazySlice_Remove_def Let_def linkedmap_Get_Put
      linkedmap_Get_Delete split: option.splits Status.splits)

text \<open>
  C2. On a collection that is not loaded and whose fetch of everything answers \<open>vs\<close>,
  \<open>GetAll\<close> leaves the world as the fetch left it, sets \<open>isSet\<close>, keeps \<open>isReset\<close>, and
  returns the live view of the merged store. In the merged store an identity that no
  fetched value has keeps its entry; for an identity of a fetched value, \<open>v\<close> being the first
  such value: untracked, it is stored with \<open>v\<close> and \<open>Unchanged\<close>; tracked as \<open>Added\<close>, it becomes
  \<open>Modified\<close> and keeps the value set locally; tracked with any other status, the entry is
  untouched.
\<close>

theorem GetAll_merge:
  fixes s :: "('t, 'i, 'x, 'w) LazySlice" and ident :: "'t \<Rightarrow> 'i"
  assumes "\<not> isSet s" and "fn s = Some f" and "f zero w = (Ok vs, w')"
  defines "s' \<equiv> fst (snd (LazySlice_GetAll ident zero s w))"
  shows "fst (LazySlice_GetAll ident zero s w) = Ok (filterRemoved (linkedmap_Values (fetched s')))
    \<and> snd (snd (LazySlice_GetAll ident zero s w)) = w'
    \<and> isSet s' \<and> isReset s' = isReset s
    \<and> (\<forall>i. linkedmap_Get (fetched s') i =
          (case find (\<lambda>v. ident v = i) vs of
             None \<Rightarrow> linkedmap_Get (fetched s) i
           | Some v \<Rightarrow>
               (case linkedmap_Get (fetched s) i of
                  None \<Rightarrow> Some \<lparr>value = v, status = Unchanged\<rparr>
                | Some item \<Rightarrow>
                    if status item = Added
                    then Some \<lparr>value = value item, status = Modified\<rparr>
                    else Some item)))"
proof -
  have s': "s' = s\<lparr>fetched := GetAll_loop ident vs (fetched s), isSet := True\<rparr>"
    using assms(1-3) by (simp add: s'_def LazySlice_GetAll_def Let_def)
  have "fst (LazySlice_GetAll ident zero s w) = Ok (filterRemoved (linkedmap_Values (fetched s')))"
    and "snd (snd (LazySlice_GetAll ident zero s w)) = w'"
    using assms(1-3) by (simp_all add: s' LazySlice_GetAll_def Let_def)
  moreover have "isSet s'" and "isReset s' = isReset s"
    by (simp_all add: s')
  moreover have "fetched s' = GetAll_loop ident vs (fetched s)"
    by (simp add: s')
  ultimately show ?thesis
    by (simp only: GetAll_loop_Get) simp
qed

theorem GetAll_merge_witness:
  "\<not> isSet (LazySlice_Set fst (2, ''x'')
        (lazy_of [(2, ''x0''), (5, ''n'')]))
   \<and> counted (lookup [(2, ''x0''), (5, ''n'')]) 0 0 = (Ok [(2, ''x0''), (5, ''n'')], 1)
   \<and> LazySlice_Changes (fst (snd (LazySlice_GetAll fst 0
        (LazySlice_Set fst (2, ''x'')
          (lazy_of [(2, ''x0''), (5, ''n'')])) (0 :: nat)))) =
       \<lparr>Reset = False, Items = [\<lparr>ID = 2, Value = (2, ''x''), Status = Modified\<rparr>]\<rparr>
   \<and> fst (LazySlice_GetAll fst 0
        (LazySlice_Set fst (2, ''x'')
          (lazy_of [(2, ''x0''), (5, ''n'')])) (0 :: nat)) =
       Ok [(2, ''x''), (5, ''n'')]
   \<and> linkedmap_Get (fetched (fst (snd (LazySlice_GetAll fst 0
        (LazySlice_Set fst (2, ''x'')
          (lazy_of [(2, ''x0''), (5, ''n'')])) (0 :: nat))))) 2 =
       Some \<lparr>value = (2, ''x''), status = Modified\<rparr>
   \<and> linkedmap_Get (fetched (fst (snd (LazySlice_GetAll fst 0
        (LazySlice_Set fst (2, ''x'')
          (lazy_of [(2, ''x0''), (5, ''n'')])) (0 :: nat))))) 5 =
       Some \<lparr>value = (5, ''n''), status = Unchanged\<rparr>"
proof -
  let ?f = "counted (lookup [(2, ''x0''), (5, ''n'')])"
  let ?s = "LazySlice_Set fst (2, ''x'') (lazy_of [(2, ''x0''), (5, ''n'')])"
  have h1: "\<not> isSet ?s" and h2: "fn ?s = Some ?f"
    by (simp_all add: LazySlice_Set_def concrete_defs)
  have h3: "?f 0 0 = (Ok [(2, ''x0''), (5, ''n'')], 1)"
    by (simp add: counted_def lookup_def)
  have before: "linkedmap_Get (fetched ?s) 2 = Some \<lparr>value = (2, ''x''), status = Added\<rparr>"
    "linkedmap_Get (fetched ?s) 5 = None"
    by (simp_all add: LazySlice_Set_def concrete_defs)
  have changes: "LazySlice_Changes (fst (snd (LazySlice_GetAll fst 0 ?s (0 :: nat)))) =
       \<lparr>Reset = False, Items = [\<lparr>ID = 2, Value = (2, ''x''), Status = Modified\<rparr>]\<rparr>"
    "fst (LazySlice_GetAll fst 0 ?s (0 :: nat)) = Ok [(2, ''x''), (5, ''n'')]"
    by code_simp code_simp
  note lookup_after =
    GetAll_merge [where s = ?s and f = ?f and zero = 0 and w = "0 :: nat" and ident = fst,
      OF h1 h2 h3, THEN conjunct2, THEN conjunct2, THEN conjunct2, THEN conjunct2, THEN spec]
  have at2: "linkedmap_Get (fetched (fst (snd (LazySlice_GetAll fst 0 ?s (0 :: nat))))) 2 =
          Some \<lparr>value = (2, ''x''), status = Modified\<rparr>"
    using lookup_after [of 2] before(1) by simp
  have at5: "linkedmap_Get (fetched (fst (snd (LazySlice_GetAll fst 0 ?s (0 :: nat))))) 5 =
          Some \<lparr>value = (5, ''n''), status = Unchanged\<rparr>"
    using lookup_after [of 5] before(2) by simp
  from h1 h3 changes at2 at5 show ?thesis by (intro conjI)
qed

text \<open>
  C3. \<open>Get(id)\<close> on a tracked identity calls no fetch function (the world is the same
  whatever \<open>fn\<close> is) and leaves the collection as it is: it returns \<open>ErrNotFound\<close> when the
  status is \<open>Absent\<close> or \<open>Removed\<close> and the tracked value otherwise. On an untracked identity
  of a loaded collection it returns \<open>ErrNotFound\<close>, again without a fetch. On an untracked
  identity of a collection that is not loaded it calls \<open>fn(id)\<close>: an empty answer stores an
  \<open>Absent\<close> tombstone under \<open>id\<close> and returns \<open>ErrNotFound\<close>, after which \<open>Get(id)\<close> returns
  \<open>ErrNotFound\<close> in every world without changing it; an answer that is not empty stores its
  first value, under that value's identity and with status \<open>Unchanged\<close>, and returns it.
\<close>

theorem Get_cases:
  fixes s :: "('t, 'i, 'x, 'w) LazySlice" and ident :: "'t \<Rightarrow> 'i" and zero :: 't
    and i :: 'i and w :: 'w
  defines "r \<equiv> LazySlice_Get ident zero i s w"
  defines "s' \<equiv> fst (snd (LazySlice_Get ident zero i s w))"
  shows
    "(\<forall>item. linkedmap_Get (fetched s) i = Some item \<longrightarrow>
        r = (if status item = Absent \<or> status item = Removed then Err ErrNotFound
             else Ok (value item), s, w))
     \<and> (linkedmap_Get (fetched s) i = None \<and> isSet s \<longrightarrow> r = (Err ErrNotFound, s, w))
     \<and> (linkedmap_Get (fetched s) i = None \<and> \<not> isSet s \<and> fn s = Some f \<and> f i w = (Ok [], w') \<longrightarrow>
          fst r = Err ErrNotFound \<and> snd (snd r) = w'
          \<and> linkedmap_Get (fetched s') =
              (linkedmap_Get (fetched s))(i \<mapsto> \<lparr>value = zero, status = Absent\<rparr>)
          \<and> isSet s' = isSet s \<and> isReset s' = isReset s \<and> fn s' = fn s
          \<and> (\<forall>w''. LazySlice_Get ident zero i s' w'' = (Err ErrNotFound, s', w'')))
     \<and> (\<forall>v0 vs. linkedmap_Get (fetched s) i = None \<and> \<not> isSet s \<and> fn s = Some f
            \<and> f i w = (Ok (v0 # vs), w') \<longrightarrow>
          fst r = Ok v0 \<and> snd (snd r) = w'
          \<and> linkedmap_Get (fetched s') =
              (linkedmap_Get (fetched s))(ident v0 \<mapsto> \<lparr>value = v0, status = Unchanged\<rparr>)
          \<and> isSet s' = isSet s \<and> isReset s' = isReset s \<and> fn s' = fn s)"
  unfolding r_def s'_def
  by (auto simp: LazySlice_Get_def linkedmap_Get_Put)

theorem Get_cases_witness:
  "fst (LazySlice_Get fst (0, []) 99
      (lazy_of [(1, ''a''), (2, ''b'')]) (7 :: nat)) = Err ErrNotFound
   \<and> snd (snd (LazySlice_Get fst (0, []) 99
      (lazy_of [(1, ''a''), (2, ''b'')]) (7 :: nat))) = 8
   \<and> fetched (fst (snd (LazySlice_Get fst (0, []) 99
      (lazy_of [(1, ''a''), (2, ''b'')]) (7 :: nat)))) =
       [(99, \<lparr>value = (0, []), status = Absent\<rparr>)]
   \<and> (\<forall>w''. LazySlice_Get fst (0, []) 99
          (fst (snd (LazySlice_Get fst (0, []) 99
            (lazy_of [(1, ''a''), (2, ''b'')]) (7 :: nat)))) w'' =
        (Err ErrNotFound,
         fst (snd (LazySlice_Get fst (0, []) 99
            (lazy_of [(1, ''a''), (2, ''b'')]) (7 :: nat))),
         w''))
   \<and> fst (LazySlice_Get fst (0, []) 2
      (lazy_of [(1, ''a''), (2, ''b'')]) (7 :: nat)) = Ok (2, ''b'')
   \<and> fetched (fst (snd (LazySlice_Get fst (0, []) 2
      (lazy_of [(1, ''a''), (2, ''b'')]) (7 :: nat)))) =
       [(2, \<lparr>value = (2, ''b''), status = Unchanged\<rparr>)]
   \<and> LazySlice_Get fst (0, []) 5 (eager_of [(1, ''a'')]) (7 :: nat) =
       (Err ErrNotFound, eager_of [(1, ''a'')], 7)
   \<and> LazySlice_Get fst (0, []) 1 (eager_of [(1, ''a'')]) (7 :: nat) =
       (Ok (1, ''a''), eager_of [(1, ''a'')], 7)
   \<and> LazySlice_Get fst (0, []) 1 (snd (LazySlice_Remove (0, []) 1 (eager_of [(1, ''a'')])))
        (7 :: nat) =
       (Err ErrNotFound, snd (LazySlice_Remove (0, []) 1 (eager_of [(1, ''a'')])), 7)"
proof -
  let ?f = "counted (lookup [(1, ''a''), (2, ''b'')])"
  let ?s0 = "lazy_of [(1, ''a''), (2, ''b'')]"
  let ?e = "eager_of [(1, ''a'')]"
  let ?e' = "snd (LazySlice_Remove (0, []) 1 ?e)"
  have h99: "linkedmap_Get (fetched ?s0) 99 = None \<and> \<not> isSet ?s0 \<and> fn ?s0 = Some ?f
      \<and> ?f 99 7 = (Ok [], 8)"
    by (simp add: concrete_defs)
  have h2: "linkedmap_Get (fetched ?s0) 2 = None \<and> \<not> isSet ?s0 \<and> fn ?s0 = Some ?f
      \<and> ?f 2 7 = (Ok ((2, ''b'') # []), 8)"
    by (simp add: concrete_defs)
  have h5: "linkedmap_Get (fetched ?e) 5 = None \<and> isSet ?e"
    by (simp add: eager_of_def NewSlice_def linkedmap_New_def linkedmap_Get_def)
  have h1: "linkedmap_Get (fetched ?e) 1 = Some \<lparr>value = (1, ''a''), status = Unchanged\<rparr>"
    by (simp add: eager_of_def NewSlice_def linkedmap_New_def linkedmap_Get_def)
  have h1': "linkedmap_Get (fetched ?e') 1 = Some \<lparr>value = (0, []), status = Removed\<rparr>"
    by (simp add: LazySlice_Remove_def concrete_defs)
  note absent =
    Get_cases [where s = ?s0 and ident = fst and zero = "(0, [])" and i = 99 and w = "7 :: nat"
      and f = ?f and w' = 8, THEN conjunct2, THEN conjunct2, THEN conjunct1, THEN mp, OF h99]
  note found =
    Get_cases [where s = ?s0 and ident = fst and zero = "(0, [])" and i = 2 and w = "7 :: nat"
      and f = ?f and w' = 8, THEN conjunct2, THEN conjunct2, THEN conjunct2, THEN spec,
      THEN spec, THEN mp, OF h2]
  note loaded =
    Get_cases [where s = ?e and ident = fst and zero = "(0, [])" and i = 5 and w = "7 :: nat",
      THEN conjunct2, THEN conjunct1, THEN mp, OF h5]
  note tracked =
    Get_cases [where s = ?e and ident = fst and zero = "(0, [])" and i = 1 and w = "7 :: nat",
      THEN conjunct1, THEN spec, THEN mp, OF h1]
  note removed =
    Get_cases [where s = ?e' and ident = fst and zero = "(0, [])" and i = 1 and w = "7 :: nat",
      THEN conjunct1, THEN spec, THEN mp, OF h1']
  have stores:
    "fetched (fst (snd (LazySlice_Get fst (0, []) 99 ?s0 (7 :: nat)))) =
       [(99, \<lparr>value = (0, []), status = Absent\<rparr>)]"
    "fetched (fst (snd (LazySlice_Get fst (0, []) 2 ?s0 (7 :: nat)))) =
       [(2, \<lparr>value = (2, ''b''), status = Unchanged\<rparr>)]"
    by code_simp code_simp
  have tracked': "LazySlice_Get fst (0, []) 1 ?e (7 :: nat) = (Ok (1, ''a''), ?e, 7)"
    and removed': "LazySlice_Get fst (0, []) 1 ?e' (7 :: nat) = (Err ErrNotFound, ?e', 7)"
    using tracked removed by simp_all
  note a1 = absent [THEN conjunct1] and a2 = absent [THEN conjunct2, THEN conjunct1]
    and a7 = absent [THEN conjunct2, THEN conjunct2, THEN conjunct2, THEN conjunct2,
      THEN conjunct2, THEN conjunct2]
    and f1 = found [THEN conjunct1]
  show ?thesis
    by (intro conjI) (rule a1 a2 a7 f1 stores loaded tracked' removed')+
qed

text \<open>
  C4. A fetch function that fails leaves its container as it was. For \<open>LazyScalar.Get\<close>,
  \<open>LazySlice.GetAll\<close> and \<open>LazySlice.Get\<close> on an untracked identity, each on a container that
  is not loaded: when the fetch function answers an error, the call returns that error and
  the very same container, in the world the fetch function left. The failure is not
  cached: called again in any world, the same call runs the fetch function again (the world
  after it is the one the fetch function leaves there) and, when the fetch then answers,
  succeeds and loads.
\<close>

theorem fetch_failure_not_cached:
  fixes v :: "('a, 'x, 'w) LazyScalar" and s :: "('t, 'i, 'x, 'w) LazySlice"
    and ident :: "'t \<Rightarrow> 'i"
  shows
    "(\<not> LazyScalar.isSet v \<and> LazyScalar.fn v = Some g \<and> g w = (Err e, w') \<longrightarrow>
        LazyScalar_Get v w = (Err e, v, w')
        \<and> (\<forall>w1. fst (LazyScalar_Get v w1) = fst (g w1)
              \<and> snd (snd (LazyScalar_Get v w1)) = snd (g w1)
              \<and> LazyScalar.isSet (fst (snd (LazyScalar_Get v w1))) = (\<exists>x. fst (g w1) = Ok x)))
     \<and> (\<not> isSet s \<and> fn s = Some f \<and> f zeroI w = (Err e, w') \<longrightarrow>
        LazySlice_GetAll ident zeroI s w = (Err e, s, w')
        \<and> (\<forall>w1. snd (snd (LazySlice_GetAll ident zeroI s w1)) = snd (f zeroI w1)
              \<and> isSet (fst (snd (LazySlice_GetAll ident zeroI s w1))) =
                  (\<exists>vs. fst (f zeroI w1) = Ok vs)
              \<and> (\<exists>vs. fst (LazySlice_GetAll ident zeroI s w1) = Ok vs) =
                  (\<exists>vs. fst (f zeroI w1) = Ok vs)))
     \<and> (linkedmap_Get (fetched s) i = None \<and> \<not> isSet s \<and> fn s = Some f \<and> f i w = (Err e, w') \<longrightarrow>
        LazySlice_Get ident zeroT i s w = (Err e, s, w')
        \<and> (\<forall>w1. snd (snd (LazySlice_Get ident zeroT i s w1)) = snd (f i w1)))"
  by (auto simp: LazyScalar_Get_def LazySlice_GetAll_def LazySlice_Get_def Let_def
      split: prod.splits result.splits list.splits)

theorem fetch_failure_not_cached_witness:
  "LazyScalar_Get (NewLazy [] (Some (flaky (\<lambda>u. Ok ''loaded value'') ()))) 0 =
     (Err (Foreign ''loading failed''), NewLazy [] (Some (flaky (\<lambda>u. Ok ''loaded value'') ())), 1)
   \<and> LazyScalar_Get (NewLazy [] (Some (flaky (\<lambda>u. Ok ''loaded value'') ()))) 1 =
     (Ok ''loaded value'',
      \<lparr>LazyScalar.isSet = True, value = ''loaded value'',
         fn = Some (flaky (\<lambda>u. Ok ''loaded value'') ()), isDirty = False\<rparr>, 2)
   \<and> LazySlice_GetAll fst 0 (lazy_with (flaky (lookup [(1, ''a'')]))) 0 =
     (Err (Foreign ''loading failed''), lazy_with (flaky (lookup [(1, ''a'')])), 1)
   \<and> fst (LazySlice_GetAll fst 0 (lazy_with (flaky (lookup [(1, ''a'')]))) 1) =
     Ok [(1, ''a'')]
   \<and> isSet (fst (snd (LazySlice_GetAll fst 0 (lazy_with (flaky (lookup [(1, ''a'')]))) 1)))
   \<and> snd (snd (LazySlice_GetAll fst 0 (lazy_with (flaky (lookup [(1, ''a'')]))) 1)) = 2
   \<and> LazySlice_Get fst (0, []) 99 (lazy_with (counted (fetcher [(1, ''a'')]))) 0 =
     (Err ErrNotFound, lazy_with (counted (fetcher [(1, ''a'')])), 1)
   \<and> LazySlice_Get fst (0, []) 99 (lazy_with (counted (fetcher [(1, ''a'')]))) 1 =
     (Err ErrNotFound, lazy_with (counted (fetcher [(1, ''a'')])), 2)"
proof -
  let ?g = "flaky (\<lambda>u. Ok ''loaded value'') () :: (string, string, nat) effect"
  let ?v = "NewLazy [] (Some ?g)"
  let ?f = "flaky (lookup [(1, ''a'')])"
  let ?s = "lazy_with ?f"
  let ?f' = "counted (fetcher [(1, ''a'')])"
  let ?s' = "lazy_with ?f'"
  have hv: "\<not> LazyScalar.isSet ?v \<and> LazyScalar.fn ?v = Some ?g
      \<and> ?g 0 = (Err (Foreign ''loading failed''), 1)"
    by (simp add: NewLazy_def flaky_def)
  have hs: "\<not> isSet ?s \<and> fn ?s = Some ?f \<and> ?f 0 0 = (Err (Foreign ''loading failed''), 1)"
    by (simp add: lazy_of_def lazy_with_def NewLazySlice_def flaky_def)
  have hi0: "linkedmap_Get (fetched ?s') 99 = None \<and> \<not> isSet ?s' \<and> fn ?s' = Some ?f'
      \<and> ?f' 99 0 = (Err ErrNotFound, 1)"
    and hi1: "linkedmap_Get (fetched ?s') 99 = None \<and> \<not> isSet ?s' \<and> fn ?s' = Some ?f'
      \<and> ?f' 99 1 = (Err ErrNotFound, 2)"
    by (simp_all add: concrete_defs)
  note all = fetch_failure_not_cached [where v = ?v and g = ?g and w = 0 and w' = 1
      and e = "Foreign ''loading failed''" and s = ?s and f = ?f and zeroI = 0 and ident = fst]
  note scalar = all [THEN conjunct1, THEN mp, OF hv]
    and slice = all [THEN conjunct2, THEN conjunct1, THEN mp, OF hs]
  note by_id0 = fetch_failure_not_cached [where e = ErrNotFound and s = ?s' and f = ?f'
      and ident = fst and i = 99 and zeroT = "(0, [])" and w = 0 and w' = 1, THEN conjunct2,
      THEN conjunct2, THEN mp, OF hi0, THEN conjunct1]
  note by_id1 = fetch_failure_not_cached [where e = ErrNotFound and s = ?s' and f = ?f'
      and ident = fst and i = 99 and zeroT = "(0, [])" and w = 1 and w' = 2, THEN conjunct2,
      THEN conjunct2, THEN mp, OF hi1, THEN conjunct1]
  have retry_scalar: "LazyScalar_Get ?v 1 =
     (Ok ''loaded value'',
      \<lparr>LazyScalar.isSet = True, value = ''loaded value'', fn = Some ?g, isDirty = False\<rparr>, 2)"
    by (simp add: LazyScalar_Get_def NewLazy_def flaky_def)
  have retry_slice: "fst (LazySlice_GetAll fst 0 ?s 1) = Ok [(1, ''a'')]"
    by code_simp
  have world: "?f 0 1 = (Ok [(1, ''a'')], 2)"
    by (simp add: flaky_def lookup_def)
  have retry_loaded: "isSet (fst (snd (LazySlice_GetAll fst 0 ?s 1)))"
    and retry_world: "snd (snd (LazySlice_GetAll fst 0 ?s 1)) = 2"
    using slice [THEN conjunct2, THEN spec, of 1] world by simp_all
  show ?thesis
    by (intro conjI)
      (rule scalar [THEN conjunct1] slice [THEN conjunct1] by_id0 by_id1
        retry_scalar retry_slice retry_loaded retry_world)+
qed

text \<open>
  C5. On a loaded collection \<open>GetAll\<close> returns, without a fetch and leaving the collection
  as it is, the values of the entries whose status is not \<open>Removed\<close>, in the order of the
  store (an \<open>Absent\<close> tombstone is among them, with its zero value); \<open>Slice.GetAll\<close> returns
  the same list. The items of \<open>Changes()\<close> are the key, value and status of the entries whose
  status is not \<open>Unchanged\<close>, in the order of the store, and its flag is \<open>isReset\<close>; \<open>Changes\<close>
  only reads the collection.
\<close>

theorem views_are_filters:
  "(isSet s \<longrightarrow>
      LazySlice_GetAll ident zero s w =
        (Ok (map value (filter (\<lambda>item. status item \<noteq> Removed) (map snd (fetched s)))), s, w))
   \<and> Slice_GetAll s = map value (filter (\<lambda>item. status item \<noteq> Removed) (map snd (fetched s)))
   \<and> Items (LazySlice_Changes s) =
       map (\<lambda>(k, item). \<lparr>ID = k, Value = value item, Status = status item\<rparr>)
         (filter (\<lambda>(k, item). status item \<noteq> Unchanged) (fetched s))
   \<and> Reset (LazySlice_Changes s) = isReset s"
  by (simp add: LazySlice_GetAll_def Slice_GetAll_def LazySlice_Changes_def
      LazySlice_changesIterator_def linkedmap_Values_def linkedmap_Entries_def
      filterRemoved_eq changesIterator_loop_eq)

theorem views_are_filters_witness:
  "isSet (fst (run fst 0 (0, []) [CallRemove 1, CallSet (3, ''c''), CallGetAll]
       (lazy_of [(1, ''a''), (2, ''b'')], 0 :: nat)))
   \<and> fst (LazySlice_GetAll fst 0
       (fst (run fst 0 (0, []) [CallRemove 1, CallSet (3, ''c''), CallGetAll]
         (lazy_of [(1, ''a''), (2, ''b'')], 0 :: nat))) (1 :: nat)) =
     Ok [(3, ''c''), (2, ''b'')]
   \<and> snd (LazySlice_GetAll fst 0
       (fst (run fst 0 (0, []) [CallRemove 1, CallSet (3, ''c''), CallGetAll]
         (lazy_of [(1, ''a''), (2, ''b'')], 0 :: nat))) (1 :: nat)) =
     (fst (run fst 0 (0, []) [CallRemove 1, CallSet (3, ''c''), CallGetAll]
         (lazy_of [(1, ''a''), (2, ''b'')], 0 :: nat)), 1)
   \<and> LazySlice_Changes
       (fst (run fst 0 (0, []) [CallRemove 1, CallSet (3, ''c''), CallGetAll]
         (lazy_of [(1, ''a''), (2, ''b'')], 0 :: nat))) =
     \<lparr>Reset = False,
        Items = [\<lparr>ID = 1, Value = (0, []), Status = Removed\<rparr>,
                 \<lparr>ID = 3, Value = (3, ''c''), Status = Added\<rparr>]\<rparr>"
proof -
  let ?s = "fst (run fst 0 (0, []) [CallRemove 1, CallSet (3, ''c''), CallGetAll]
       (lazy_of [(1, ''a''), (2, ''b'')], 0 :: nat))"
  have loaded: "isSet ?s"
    by code_simp
  have store: "fetched ?s =
      [(1, \<lparr>value = (0, []), status = Removed\<rparr>), (3, \<lparr>value = (3, ''c''), status = Added\<rparr>),
       (2, \<lparr>value = (2, ''b''), status = Unchanged\<rparr>)]"
    by code_simp
  have changes: "LazySlice_Changes ?s =
     \<lparr>Reset = False,
        Items = [\<lparr>ID = 1, Value = (0, []), Status = Removed\<rparr>,
                 \<lparr>ID = 3, Value = (3, ''c''), Status = Added\<rparr>]\<rparr>"
    by code_simp
  note live = views_are_filters [where s = ?s and ident = fst and zero = 0 and w = "1 :: nat",
      THEN conjunct1, THEN mp, OF loaded]
  have "fst (LazySlice_GetAll fst 0 ?s (1 :: nat)) = Ok [(3, ''c''), (2, ''b'')]"
    unfolding live store by simp
  moreover have "snd (LazySlice_GetAll fst 0 ?s (1 :: nat)) = (?s, 1)"
    unfolding live by simp
  ultimately show ?thesis
    using loaded changes by (intro conjI)
qed

text \<open>
  C6, as stated, fails: on a collection that is not loaded, \<open>Set(x)\<close> then \<open>Remove(x.ID())\<close>
  forgets the identity, and the \<open>GetAll\<close> that follows fetches the baseline and yields the
  fetched value of that identity. Here the baseline holds \<open>(2, x0)\<close>; \<open>Set\<close> of \<open>(2, x)\<close> gives
  identity 2 the status \<open>Added\<close>, \<open>Remove(2)\<close> deletes the entry, and the live view of \<open>GetAll\<close>
  is \<open>[(2, x0)]\<close>.
\<close>

theorem Set_Remove_GetAll_counterexample:
  "map_option status
     (linkedmap_Get
       (fetched (LazySlice_Set fst (2, ''x'') (lazy_of [(2, ''x0'')])))
       2) = Some Added
   \<and> fetched (snd (LazySlice_Remove (0, []) 2
        (LazySlice_Set fst (2, ''x'') (lazy_of [(2, ''x0'')])))) = []
   \<and> fst (LazySlice_GetAll fst 0
        (snd (LazySlice_Remove (0, []) 2
          (LazySlice_Set fst (2, ''x'') (lazy_of [(2, ''x0'')]))))
        (0 :: nat)) = Ok [(2, ''x0'')]"
  by (intro conjI) code_simp+

text \<open>
  C6, amended. When \<open>Set(x)\<close> leaves the identity of \<open>x\<close> with status \<open>Added\<close>, \<open>Set(x)\<close> then
  \<open>Remove(x.ID())\<close> returns true and leaves the store that \<open>s\<close> had with that key deleted (the
  collection \<open>s\<close> itself when the identity was untracked): the identity is not a key of the
  store and no item of \<open>Changes()\<close> has it. On a loaded collection \<open>GetAll\<close> then returns the
  live view of that store and, when every present entry of \<open>s\<close> is keyed by its value's
  identity, every tombstone holds the zero value and the zero value has another identity,
  no value of the live view has the identity of \<open>x\<close>. On a collection that is not loaded,
  \<open>GetAll\<close> merges what it fetches: the identity stays untracked when no fetched value has
  it, and otherwise it is stored with the first fetched value of that identity and status
  \<open>Unchanged\<close>, and the live view yields that value.
\<close>

theorem Set_Remove_cancel:
  fixes s :: "('t, 'i, 'x, 'w) LazySlice" and ident :: "'t \<Rightarrow> 'i" and zero :: 't
  assumes "map_option status (linkedmap_Get (fetched (LazySlice_Set ident x s)) (ident x)) =
      Some Added"
  defines "s2 \<equiv> snd (LazySlice_Remove zero (ident x) (LazySlice_Set ident x s))"
  shows "fst (LazySlice_Remove zero (ident x) (LazySlice_Set ident x s))
    \<and> fetched s2 = linkedmap_Delete (ident x) (fetched s)
    \<and> isSet s2 = isSet s \<and> isReset s2 = isReset s \<and> fn s2 = fn s
    \<and> (linkedmap_Get (fetched s) (ident x) = None \<longrightarrow> s2 = s)
    \<and> linkedmap_Get (fetched s2) (ident x) = None
    \<and> ident x \<notin> fst ` set (fetched s2)
    \<and> (\<forall>c \<in> set (Items (LazySlice_Changes s2)). ID c \<noteq> ident x)
    \<and> (isSet s \<longrightarrow>
         LazySlice_GetAll ident zeroI s2 w =
           (Ok (filterRemoved (linkedmap_Values (linkedmap_Delete (ident x) (fetched s)))), s2, w))
    \<and> (key_inv ident s \<and> tomb_inv zero s \<and> ident zero \<noteq> ident x \<longrightarrow>
         (\<forall>v \<in> set (filterRemoved (linkedmap_Values (fetched s2))). ident v \<noteq> ident x))
    \<and> (\<not> isSet s \<and> fn s = Some f \<and> f zeroI w = (Ok vs, w') \<and> ident x \<notin> ident ` set vs \<longrightarrow>
         linkedmap_Get (fetched (fst (snd (LazySlice_GetAll ident zeroI s2 w)))) (ident x) = None)
    \<and> (\<forall>v. \<not> isSet s \<and> fn s = Some f \<and> f zeroI w = (Ok vs, w')
           \<and> find (\<lambda>v. ident v = ident x) vs = Some v \<longrightarrow>
         linkedmap_Get (fetched (fst (snd (LazySlice_GetAll ident zeroI s2 w)))) (ident x) =
           Some \<lparr>value = v, status = Unchanged\<rparr>
         \<and> (\<exists>live. fst (LazySlice_GetAll ident zeroI s2 w) = Ok live \<and> v \<in> set live))"
proof -
  let ?s1 = "LazySlice_Set ident x s"
  have "\<exists>st. ?s1 = s\<lparr>fetched := linkedmap_Put (ident x) \<lparr>value = x, status = st\<rparr> (fetched s)\<rparr>"
  proof (cases "linkedmap_Get (fetched s) (ident x)")
    case None
    then have "?s1 = s\<lparr>fetched := linkedmap_Put (ident x) \<lparr>value = x, status = Added\<rparr> (fetched s)\<rparr>"
      by (simp add: LazySlice_Set_def)
    then show ?thesis ..
  next
    case (Some item)
    let ?st = "if status item = Absent \<or> status item = Added then Added
        else if status item = Removed \<or> status item = Unchanged then Modified else status item"
    from Some
    have "?s1 = s\<lparr>fetched := linkedmap_Put (ident x) \<lparr>value = x, status = ?st\<rparr> (fetched s)\<rparr>"
      by (simp add: LazySlice_Set_def Let_def)
    then show ?thesis ..
  qed
  then obtain st
    where s1: "?s1 = s\<lparr>fetched := linkedmap_Put (ident x) \<lparr>value = x, status = st\<rparr> (fetched s)\<rparr>"
    by blast
  with assms(1) have st: "st = Added"
    by (simp add: linkedmap_Get_Put)
  have removed: "LazySlice_Remove zero (ident x) ?s1 =
      (True, s\<lparr>fetched := linkedmap_Delete (ident x) (fetched s)\<rparr>)"
    by (simp add: s1 st LazySlice_Remove_def Let_def linkedmap_Get_Put linkedmap_Delete_Put)
  then have s2: "s2 = s\<lparr>fetched := linkedmap_Delete (ident x) (fetched s)\<rparr>"
    by (simp add: s2_def)
  have store: "fetched s2 = linkedmap_Delete (ident x) (fetched s)"
    by (simp add: s2)
  have gone: "linkedmap_Get (fetched s2) (ident x) = None"
    by (simp add: store linkedmap_Get_Delete)
  then have no_key: "ident x \<notin> fst ` set (fetched s2)"
    by (simp add: linkedmap_Get_None_iff)
  have no_change: "\<forall>c \<in> set (Items (LazySlice_Changes s2)). ID c \<noteq> ident x"
    using no_key
    by (force simp: LazySlice_Changes_def LazySlice_changesIterator_def linkedmap_Entries_def
        changesIterator_loop_set)
  have same: "s2 = s" if "linkedmap_Get (fetched s) (ident x) = None"
    using that by (simp add: s2 linkedmap_Delete_absent)
  have loaded: "LazySlice_GetAll ident zeroI s2 w =
      (Ok (filterRemoved (linkedmap_Values (linkedmap_Delete (ident x) (fetched s)))), s2, w)"
    if "isSet s"
    using that by (simp add: LazySlice_GetAll_def s2)
  have live: "\<forall>v \<in> set (filterRemoved (linkedmap_Values (fetched s2))). ident v \<noteq> ident x"
    if "key_inv ident s" and "tomb_inv zero s" and "ident zero \<noteq> ident x"
  proof
    fix v
    assume "v \<in> set (filterRemoved (linkedmap_Values (fetched s2)))"
    then obtain k item where entry: "(k, item) \<in> set (fetched s2)"
      and live: "status item \<noteq> Removed" and v: "v = value item"
      by (auto simp: filterRemoved_eq linkedmap_Values_def)
    from entry have in_s: "(k, item) \<in> set (fetched s)" and k: "k \<noteq> ident x"
      by (auto simp: store set_linkedmap_Delete)
    show "ident v \<noteq> ident x"
    proof (cases "status item = Absent")
      case True
      with in_s that(2) have "value item = zero"
        by (auto simp: tomb_inv_def)
      with that(3) v show ?thesis by simp
    next
      case False
      with in_s live that(1) have "ident (value item) = k"
        by (auto simp: key_inv_def)
      with k v show ?thesis by simp
    qed
  qed
  have lazy:
    "linkedmap_Get (fetched (fst (snd (LazySlice_GetAll ident zeroI s2 w)))) (ident x) = None"
    if "\<not> isSet s" and "fn s = Some f" and "f zeroI w = (Ok vs, w')" and "ident x \<notin> ident ` set vs"
  proof -
    have "find (\<lambda>v. ident v = ident x) vs = None"
      unfolding find_None_iff using that(4) by (metis imageI)
    with that(1-3) gone show ?thesis
      by (simp add: LazySlice_GetAll_def s2 Let_def GetAll_loop_Get)
  qed
  have refetched:
    "linkedmap_Get (fetched (fst (snd (LazySlice_GetAll ident zeroI s2 w)))) (ident x) =
       Some \<lparr>value = v, status = Unchanged\<rparr>
     \<and> (\<exists>live. fst (LazySlice_GetAll ident zeroI s2 w) = Ok live \<and> v \<in> set live)"
    if "\<not> isSet s" and "fn s = Some f" and "f zeroI w = (Ok vs, w')"
      and "find (\<lambda>v. ident v = ident x) vs = Some v" for v
  proof -
    let ?m = "GetAll_loop ident vs (fetched s2)"
    from that(1-3) have result: "fst (LazySlice_GetAll ident zeroI s2 w) =
        Ok (filterRemoved (linkedmap_Values ?m))"
      and after: "fetched (fst (snd (LazySlice_GetAll ident zeroI s2 w))) = ?m"
      by (simp_all add: LazySlice_GetAll_def s2 Let_def)
    from that(4) gone have entry: "linkedmap_Get ?m (ident x) = Some \<lparr>value = v, status = Unchanged\<rparr>"
      by (simp add: GetAll_loop_Get)
    then have "(ident x, \<lparr>value = v, status = Unchanged\<rparr>) \<in> set ?m"
      by (rule linkedmap_Get_in_set)
    then have "v \<in> set (filterRemoved (linkedmap_Values ?m))"
      by (force simp: filterRemoved_eq linkedmap_Values_def)
    with result entry after show ?thesis by simp
  qed
  from removed store gone no_key no_change same loaded live lazy refetched show ?thesis
    by (simp add: s2)
qed

theorem Set_Remove_cancel_witness:
  "map_option status
     (linkedmap_Get
       (fetched (LazySlice_Set fst (2, ''x'')
          (eager_of [(1, ''a'')]))) 2) = Some Added
   \<and> LazySlice_Remove (0, []) 2
        (LazySlice_Set fst (2, ''x'')
          (eager_of [(1, ''a'')])) =
       (True, eager_of [(1, ''a'')])
   \<and> fst (LazySlice_GetAll fst 0
        (snd (LazySlice_Remove (0, []) 2
          (LazySlice_Set fst (2, ''x'')
            (eager_of [(1, ''a'')])))) (0 :: nat)) =
       Ok [(1, ''a'')]
   \<and> list_all (\<lambda>v. fst v \<noteq> 2)
        (filterRemoved (linkedmap_Values (fetched
          (snd (LazySlice_Remove (0, []) 2
            (LazySlice_Set fst (2, ''x'')
              (eager_of [(1, ''a'')])))))))
   \<and> Items (LazySlice_Changes
        (snd (LazySlice_Remove (0, []) 2
          (LazySlice_Set fst (2, ''x'')
            (eager_of [(1, ''a'')]))))) = []
   \<and> counted (lookup [(1, ''a'')]) 0 0 = (Ok [(1, ''a'')], 1)
   \<and> linkedmap_Get
        (fetched (fst (snd (LazySlice_GetAll fst 0
          (snd (LazySlice_Remove (0, []) 2
            (LazySlice_Set fst (2, ''x'') (lazy_of [(1, ''a'')]))))
          (0 :: nat))))) 2 = None
   \<and> counted (lookup [(2, ''x0'')]) 0 0 = (Ok [(2, ''x0'')], 1)
   \<and> linkedmap_Get
        (fetched (fst (snd (LazySlice_GetAll fst 0
          (snd (LazySlice_Remove (0, []) 2
            (LazySlice_Set fst (2, ''x'') (lazy_of [(2, ''x0'')]))))
          (0 :: nat))))) 2 = Some \<lparr>value = (2, ''x0''), status = Unchanged\<rparr>"
proof -
  let ?e = "eager_of [(1, ''a'')]"
  let ?f = "counted (lookup [(1, ''a'')])"
  let ?s = "lazy_of [(1, ''a'')]"
  let ?e2 = "snd (LazySlice_Remove (0, []) 2 (LazySlice_Set fst (2, ''x'') ?e))"
  have added: "map_option status
      (linkedmap_Get (fetched (LazySlice_Set fst (2, ''x'') ?e)) (fst (2 :: nat, ''x''))) =
      Some Added"
    by code_simp
  have added': "map_option status
      (linkedmap_Get (fetched (LazySlice_Set fst (2, ''x'') ?s)) (fst (2 :: nat, ''x''))) =
      Some Added"
    by code_simp
  have at_first: "map_option status (linkedmap_Get (fetched (LazySlice_Set fst (2, ''x'') ?e)) 2) =
      Some Added"
    using added by simp
  let ?g = "counted (lookup [(2, ''x0'')])"
  let ?t = "lazy_of [(2, ''x0'')]"
  have added'': "map_option status
      (linkedmap_Get (fetched (LazySlice_Set fst (2, ''x'') ?t)) (fst (2 :: nat, ''x''))) =
      Some Added"
    by code_simp
  have in_baseline: "\<not> isSet ?t \<and> fn ?t = Some ?g \<and> ?g 0 0 = (Ok [(2, ''x0'')], 1)
      \<and> find (\<lambda>v. fst v = fst (2 :: nat, ''x'')) [(2 :: nat, ''x0'')] = Some (2, ''x0'')"
    by (simp add: concrete_defs)
  have untracked: "linkedmap_Get (fetched ?e) (fst (2 :: nat, ''x'')) = None"
    by code_simp
  have loaded: "isSet ?e"
    by (simp add: eager_of_def NewSlice_def)
  have store: "fetched ?e = [(1, \<lparr>value = (1, ''a''), status = Unchanged\<rparr>)]"
    by code_simp
  have invs: "key_inv fst ?e \<and> tomb_inv (0, []) ?e \<and> fst (0 :: nat, '''') \<noteq> fst (2 :: nat, ''x'')"
    unfolding key_inv_def tomb_inv_def store by simp
  have lazy: "\<not> isSet ?s \<and> fn ?s = Some ?f \<and> ?f 0 0 = (Ok [(1, ''a'')], 1)
      \<and> fst (2 :: nat, ''x'') \<notin> fst ` set [(1 :: nat, ''a'')]"
    by (simp add: lazy_of_def lazy_with_def NewLazySlice_def counted_def lookup_def)
  note eager =
    Set_Remove_cancel [where s = ?e and ident = fst and x = "(2, ''x'')" and zero = "(0, [])"
      and zeroI = 0 and w = "0 :: nat", OF added]
  note later =
    Set_Remove_cancel [where s = ?s and ident = fst and x = "(2, ''x'')" and zero = "(0, [])"
      and zeroI = 0 and w = "0 :: nat" and f = ?f and vs = "[(1, ''a'')]" and w' = 1, OF added']
  have round_trip: "LazySlice_Remove (0, []) 2 (LazySlice_Set fst (2, ''x'') ?e) = (True, ?e)"
    using eager [THEN conjunct1]
      eager [THEN conjunct2, THEN conjunct2, THEN conjunct2, THEN conjunct2, THEN conjunct2,
        THEN conjunct1, THEN mp, OF untracked]
    by (simp add: prod_eq_iff)
  have live_view: "LazySlice_GetAll fst 0 ?e2 (0 :: nat) =
      (Ok (filterRemoved (linkedmap_Values (linkedmap_Delete 2 (fetched ?e)))), ?e2, 0)"
    using eager [THEN conjunct2, THEN conjunct2, THEN conjunct2, THEN conjunct2, THEN conjunct2,
        THEN conjunct2, THEN conjunct2, THEN conjunct2, THEN conjunct2, THEN conjunct1, THEN mp,
        OF loaded]
    by (simp only: fst_conv)
  have view: "fst (LazySlice_GetAll fst 0 ?e2 (0 :: nat)) = Ok [(1, ''a'')]"
    unfolding live_view store by (simp add: linkedmap_Delete_def linkedmap_Values_def)
  have "\<forall>v \<in> set (filterRemoved (linkedmap_Values (fetched ?e2))). fst v \<noteq> 2"
    using eager [THEN conjunct2, THEN conjunct2, THEN conjunct2, THEN conjunct2, THEN conjunct2,
        THEN conjunct2, THEN conjunct2, THEN conjunct2, THEN conjunct2, THEN conjunct2,
        THEN conjunct1, THEN mp, OF invs]
    by simp
  then have live: "list_all (\<lambda>v. fst v \<noteq> 2) (filterRemoved (linkedmap_Values (fetched ?e2)))"
    by (simp add: list_all_iff)
  have changes: "Items (LazySlice_Changes ?e2) = []"
    by code_simp
  have merged: "linkedmap_Get
      (fetched (fst (snd (LazySlice_GetAll fst 0
        (snd (LazySlice_Remove (0, []) 2 (LazySlice_Set fst (2, ''x'') ?s))) (0 :: nat))))) 2 =
      None"
    using later [THEN conjunct2, THEN conjunct2, THEN conjunct2, THEN conjunct2, THEN conjunct2,
        THEN conjunct2, THEN conjunct2, THEN conjunct2, THEN conjunct2, THEN conjunct2,
        THEN conjunct2, THEN conjunct1, THEN mp, OF lazy]
    by simp
  have refetched: "linkedmap_Get
      (fetched (fst (snd (LazySlice_GetAll fst 0
        (snd (LazySlice_Remove (0, []) 2 (LazySlice_Set fst (2, ''x'') ?t))) (0 :: nat))))) 2 =
      Some \<lparr>value = (2, ''x0''), status = Unchanged\<rparr>"
    using Set_Remove_cancel [where s = ?t and ident = fst and x = "(2, ''x'')"
        and zero = "(0, [])" and zeroI = 0 and w = "0 :: nat" and f = ?g
        and vs = "[(2, ''x0'')]" and w' = 1, OF added'', THEN conjunct2, THEN conjunct2,
        THEN conjunct2, THEN conjunct2, THEN conjunct2, THEN conjunct2, THEN conjunct2,
        THEN conjunct2, THEN conjunct2, THEN conjunct2, THEN conjunct2, THEN conjunct2,
        THEN spec, THEN mp, OF in_baseline]
    by simp
  from at_first round_trip view live changes
    lazy [THEN conjunct2, THEN conjunct2, THEN conjunct1] merged
    in_baseline [THEN conjunct2, THEN conjunct2, THEN conjunct1] refetched
  show ?thesis by (intro conjI)
qed

text \<open>
  C7, as stated, fails: \<open>SetAll(xs)\<close> does not record every value of \<open>xs\<close> when two of them
  have the same identity. The store is keyed by identity, so the later value overwrites the
  earlier one in its place: of \<open>(1, a)\<close>, \<open>(1, b)\<close>, \<open>(2, c)\<close> the store and \<open>Changes()\<close> hold
  \<open>(1, b)\<close> and \<open>(2, c)\<close>, and \<open>(1, a)\<close> is recorded nowhere.
\<close>

theorem SetAll_repeated_identity_counterexample:
  "fetched (LazySlice_SetAll fst [(1, ''a''), (1, ''b''), (2, ''c'')] (lazy_of [])) =
     [(1, \<lparr>value = (1, ''b''), status = Added\<rparr>), (2, \<lparr>value = (2, ''c''), status = Added\<rparr>)]
   \<and> fetched (LazySlice_SetAll fst [(1, ''a''), (1, ''b''), (2, ''c'')] (lazy_of [])) \<noteq>
     [(1, \<lparr>value = (1, ''a''), status = Added\<rparr>), (1, \<lparr>value = (1, ''b''), status = Added\<rparr>),
      (2, \<lparr>value = (2, ''c''), status = Added\<rparr>)]
   \<and> (1, ''a'') \<notin> set (map value (linkedmap_Values
        (fetched (LazySlice_SetAll fst [(1, ''a''), (1, ''b''), (2, ''c'')] (lazy_of [])))))
   \<and> Items (LazySlice_Changes
        (LazySlice_SetAll fst [(1, ''a''), (1, ''b''), (2, ''c'')] (lazy_of []))) =
     [\<lparr>ID = 1, Value = (1, ''b''), Status = Added\<rparr>,
      \<lparr>ID = 2, Value = (2, ''c''), Status = Added\<rparr>]"
  by (intro conjI) code_simp+

text \<open>
  C7, amended. \<open>SetAll(xs)\<close> sets \<open>isReset\<close> and \<open>isSet\<close> and builds a new store from \<open>xs\<close>
  alone, whatever the collection tracked before: its keys are the identities of \<open>xs\<close> in the
  order of their first occurrence, every entry has status \<open>Added\<close>, and the entry of an
  identity holds the last value of \<open>xs\<close> with that identity. When the identities of \<open>xs\<close> are
  distinct the store is exactly the values of \<open>xs\<close>, each with status \<open>Added\<close>, in the given
  order. \<open>Changes()\<close> then reports every entry, with status \<open>Added\<close>, and the reset flag.
  \<open>Clear()\<close> leaves the same collection as \<open>SetAll\<close> of the empty list: loaded, reset, with
  an empty store.
\<close>

theorem SetAll_resets:
  fixes s :: "('t, 'i, 'x, 'w) LazySlice" and ident :: "'t \<Rightarrow> 'i" and xs :: "'t list"
  defines "s' \<equiv> LazySlice_SetAll ident xs s"
  shows "isReset s' \<and> isSet s' \<and> fn s' = fn s
    \<and> (\<forall>t :: ('t, 'i, 'x, 'w) LazySlice. fetched (LazySlice_SetAll ident xs t) = fetched s')
    \<and> map fst (fetched s') = rev (remdups (rev (map ident xs)))
    \<and> (\<forall>i. linkedmap_Get (fetched s') i =
          map_option (\<lambda>v. \<lparr>value = v, status = Added\<rparr>) (find (\<lambda>v. ident v = i) (rev xs)))
    \<and> (distinct (map ident xs) \<longrightarrow>
          fetched s' = map (\<lambda>v. (ident v, \<lparr>value = v, status = Added\<rparr>)) xs)
    \<and> Reset (LazySlice_Changes s')
    \<and> Items (LazySlice_Changes s') =
        map (\<lambda>(k, item). \<lparr>ID = k, Value = value item, Status = Added\<rparr>) (fetched s')
    \<and> LazySlice_Clear s = LazySlice_SetAll ident [] s
    \<and> isSet (LazySlice_Clear s) \<and> isReset (LazySlice_Clear s) \<and> fetched (LazySlice_Clear s) = []"
proof -
  have store: "fetched s' = SetAll_loop ident xs []"
    by (simp add: s'_def LazySlice_SetAll_def linkedmap_New_def)
  have flags: "isReset s'" "isSet s'" "fn s' = fn s"
    by (simp_all add: s'_def LazySlice_SetAll_def)
  have any: "fetched (LazySlice_SetAll ident xs t) = fetched s'"
    for t :: "('t, 'i, 'x, 'w) LazySlice"
    by (simp add: store LazySlice_SetAll_def linkedmap_New_def)
  have keys: "map fst (fetched s') = rev (remdups (rev (map ident xs)))"
    by (simp add: store SetAll_loop_keys del: rev.simps)
  have look: "linkedmap_Get (fetched s') i =
      map_option (\<lambda>v. \<lparr>value = v, status = Added\<rparr>) (find (\<lambda>v. ident v = i) (rev xs))" for i
    by (simp add: store SetAll_loop_Get linkedmap_Get_Nil split: option.splits)
  have exact: "fetched s' = map (\<lambda>v. (ident v, \<lparr>value = v, status = Added\<rparr>)) xs"
    if "distinct (map ident xs)"
    using that SetAll_loop_distinct [of ident xs "[]"] by (simp add: store)
  have "filter (\<lambda>(k, item). status item \<noteq> Unchanged) (fetched s') = fetched s'"
    by (rule filter_True) (auto simp: store dest: SetAll_loop_Added)
  moreover have
    "map (\<lambda>(k, item). \<lparr>ID = k, Value = value item, Status = status item\<rparr>) (fetched s') =
     map (\<lambda>(k, item). \<lparr>ID = k, Value = value item, Status = Added\<rparr>) (fetched s')"
    by (rule map_cong) (auto simp: store dest: SetAll_loop_Added)
  ultimately have items: "Items (LazySlice_Changes s') =
      map (\<lambda>(k, item). \<lparr>ID = k, Value = value item, Status = Added\<rparr>) (fetched s')"
    by (simp add: LazySlice_Changes_def LazySlice_changesIterator_def linkedmap_Entries_def
        changesIterator_loop_eq)
  have reset: "Reset (LazySlice_Changes s')"
    by (simp add: LazySlice_Changes_def flags)
  have clear: "LazySlice_Clear s = LazySlice_SetAll ident [] s"
    "isSet (LazySlice_Clear s)" "isReset (LazySlice_Clear s)" "fetched (LazySlice_Clear s) = []"
    by (simp_all add: LazySlice_Clear_def LazySlice_SetAll_def linkedmap_Clear_def
        linkedmap_New_def)
  from flags any keys look exact items reset clear show ?thesis
    by (intro conjI allI impI)
qed

theorem SetAll_resets_witness:
  "distinct (map fst [(1 :: nat, ''a''), (2, ''b'')])
   \<and> fetched (LazySlice_SetAll fst [(1, ''a''), (2, ''b'')]
        (LazySlice_Set fst (9, ''z'') (lazy_of [(9, ''y'')]))) =
       [(1, \<lparr>value = (1, ''a''), status = Added\<rparr>), (2, \<lparr>value = (2, ''b''), status = Added\<rparr>)]
   \<and> LazySlice_Changes (LazySlice_SetAll fst [(1, ''a''), (2, ''b'')]
        (LazySlice_Set fst (9, ''z'') (lazy_of [(9, ''y'')]))) =
       \<lparr>Reset = True,
          Items = [\<lparr>ID = 1, Value = (1, ''a''), Status = Added\<rparr>,
                   \<lparr>ID = 2, Value = (2, ''b''), Status = Added\<rparr>]\<rparr>
   \<and> fetched (LazySlice_SetAll fst [(1, ''a''), (1, ''b''), (2, ''c'')]
        (LazySlice_Set fst (9, ''z'') (lazy_of [(9, ''y'')]))) =
       [(1, \<lparr>value = (1, ''b''), status = Added\<rparr>), (2, \<lparr>value = (2, ''c''), status = Added\<rparr>)]
   \<and> LazySlice_Clear (LazySlice_Set fst (9, ''z'') (lazy_of [(9, ''y'')])) =
       LazySlice_SetAll fst []
         (LazySlice_Set fst (9, ''z'') (lazy_of [(9, ''y'')]))"
proof -
  let ?s = "LazySlice_Set fst (9, ''z'') (lazy_of [(9, ''y'')])"
  have d: "distinct (map fst [(1 :: nat, ''a''), (2, ''b'')])"
    by simp
  note all = SetAll_resets [where s = ?s and ident = fst and xs = "[(1, ''a''), (2, ''b'')]"]
  have store: "fetched (LazySlice_SetAll fst [(1, ''a''), (2, ''b'')] ?s) =
       [(1, \<lparr>value = (1, ''a''), status = Added\<rparr>), (2, \<lparr>value = (2, ''b''), status = Added\<rparr>)]"
    using all [THEN conjunct2, THEN conjunct2, THEN conjunct2, THEN conjunct2, THEN conjunct2,
        THEN conjunct2, THEN conjunct1, THEN mp, OF d]
    by simp
  have changes: "LazySlice_Changes (LazySlice_SetAll fst [(1, ''a''), (2, ''b'')] ?s) =
       \<lparr>Reset = True,
          Items = [\<lparr>ID = 1, Value = (1, ''a''), Status = Added\<rparr>,
                   \<lparr>ID = 2, Value = (2, ''b''), Status = Added\<rparr>]\<rparr>"
    by code_simp
  have twice: "fetched (LazySlice_SetAll fst [(1, ''a''), (1, ''b''), (2, ''c'')] ?s) =
       [(1, \<lparr>value = (1, ''b''), status = Added\<rparr>), (2, \<lparr>value = (2, ''c''), status = Added\<rparr>)]"
    by code_simp
  note clear =
    SetAll_resets [where s = ?s and ident = fst and xs = "[]", THEN conjunct2, THEN conjunct2,
      THEN conjunct2, THEN conjunct2, THEN conjunct2, THEN conjunct2, THEN conjunct2,
      THEN conjunct2, THEN conjunct2, THEN conjunct1]
  from d store changes twice clear show ?thesis
    by (intro conjI)
qed

text \<open>
  C8. Every entry whose value is present is stored under the identity of its value
  (\<open>key_inv\<close>): both constructors establish it, each of \<open>Set\<close>, \<open>SetAll\<close>, \<open>Remove\<close>, \<open>Clear\<close>,
  \<open>Get\<close> and \<open>GetAll\<close> keeps it, whatever the fetch function answers, and so does every
  sequence of these calls.
\<close>

theorem key_inv_preserved:
  "key_inv ident (NewLazySlice f)
   \<and> key_inv ident (NewSlice ident vs)
   \<and> (key_inv ident s \<longrightarrow>
        key_inv ident (LazySlice_Set ident v s)
        \<and> key_inv ident (LazySlice_SetAll ident vs s)
        \<and> key_inv ident (snd (LazySlice_Remove zeroT i s))
        \<and> key_inv ident (LazySlice_Clear s)
        \<and> key_inv ident (fst (snd (LazySlice_Get ident zeroT i s w)))
        \<and> key_inv ident (fst (snd (LazySlice_GetAll ident zeroI s w)))
        \<and> key_inv ident (fst (run ident zeroI zeroT cs (s, w))))"
  using key_inv_run [of ident "(s, w)" zeroI zeroT cs]
  by (simp add: key_inv_NewLazySlice key_inv_NewSlice key_inv_Set key_inv_SetAll key_inv_Remove
      key_inv_Clear key_inv_Get key_inv_GetAll)

theorem key_inv_preserved_witness:
  "key_inv fst (LazySlice_Set fst (2, ''x'') (lazy_of [(1, ''a''), (2, ''b'')]))
   \<and> key_inv fst
       (fst (run fst 0 (0, [])
          [CallGet 99, CallRemove 1, CallGetAll, CallSet (1, ''c''), CallGet 1]
          (LazySlice_Set fst (2, ''x'') (lazy_of [(1, ''a''), (2, ''b'')]),
           0 :: nat)))
   \<and> fetched
       (fst (run fst 0 (0, [])
          [CallGet 99, CallRemove 1, CallGetAll, CallSet (1, ''c''), CallGet 1]
          (LazySlice_Set fst (2, ''x'') (lazy_of [(1, ''a''), (2, ''b'')]),
           0 :: nat))) =
       [(2, \<lparr>value = (2, ''x''), status = Modified\<rparr>),
        (99, \<lparr>value = (0, []), status = Absent\<rparr>),
        (1, \<lparr>value = (1, ''c''), status = Modified\<rparr>)]"
proof -
  let ?s = "LazySlice_Set fst (2, ''x'')
     (lazy_of [(1, ''a''), (2, ''b'')])"
  have start: "key_inv fst ?s"
    by (simp add: key_inv_def LazySlice_Set_def concrete_defs)
  have "fetched
       (fst (run fst 0 (0, [])
          [CallGet 99, CallRemove 1, CallGetAll, CallSet (1, ''c''), CallGet 1] (?s, 0 :: nat))) =
       [(2, \<lparr>value = (2, ''x''), status = Modified\<rparr>),
        (99, \<lparr>value = (0, []), status = Absent\<rparr>),
        (1, \<lparr>value = (1, ''c''), status = Modified\<rparr>)]"
    by code_simp
  with start
    key_inv_preserved [where ident = fst and s = ?s and w = "0 :: nat" and zeroI = 0
      and zeroT = "(0, [])"
      and cs = "[CallGet 99, CallRemove 1, CallGetAll, CallSet (1, ''c''), CallGet 1]"]
  show ?thesis by blast
qed

text \<open>
  C9. \<open>Slice.Get\<close> returns a value, never an error: the zero value for an untracked identity
  and the stored value for a tracked one, whatever its status. A tombstone holds the zero
  value (\<open>tomb_inv\<close>, which \<open>NewSlice\<close> establishes and every sequence of calls keeps), so for
  an identity tracked as \<open>Removed\<close> or \<open>Absent\<close> \<open>Slice.Get\<close> returns the zero value, where
  \<open>LazySlice.Get\<close> returns \<open>ErrNotFound\<close>, as it does for an untracked identity of a loaded
  collection.
\<close>

theorem Slice_Get_ignores_status:
  "(linkedmap_Get (fetched e) i = None \<longrightarrow> Slice_Get zero i e = zero)
   \<and> (\<forall>item. linkedmap_Get (fetched e) i = Some item \<longrightarrow> Slice_Get zero i e = value item)
   \<and> (\<forall>item. linkedmap_Get (fetched e) i = Some item
         \<and> (status item = Removed \<or> status item = Absent) \<and> tomb_inv zero e \<longrightarrow>
        Slice_Get zero i e = zero \<and> fst (LazySlice_Get ident zero i e w) = Err ErrNotFound)
   \<and> (linkedmap_Get (fetched e) i = None \<and> isSet e \<longrightarrow>
        fst (LazySlice_Get ident zero i e w) = Err ErrNotFound)
   \<and> tomb_inv zero (NewSlice ident vs)
   \<and> (tomb_inv zero e \<longrightarrow> tomb_inv zero (fst (run ident zeroI zero cs (e, w))))"
proof -
  have "value item = zero"
    if "linkedmap_Get (fetched e) i = Some item" and "status item = Removed \<or> status item = Absent"
      and "tomb_inv zero e" for item
    using that linkedmap_Get_in_set [of "fetched e" i item] by (auto simp: tomb_inv_def)
  then show ?thesis
    using tomb_inv_run [of zero "(e, w)" ident zeroI cs]
    by (auto simp: Slice_Get_def LazySlice_Get_def tomb_inv_NewSlice)
qed

theorem Slice_Get_ignores_status_witness:
  "tomb_inv (0, [])
     (fst (run fst 0 (0, []) [CallRemove 1]
        (eager_of [(1, ''a''), (2, ''b'')], 0 :: nat)))
   \<and> linkedmap_Get
       (fetched (fst (run fst 0 (0, []) [CallRemove 1]
          (eager_of [(1, ''a''), (2, ''b'')], 0 :: nat))))
       1 = Some \<lparr>value = (0, []), status = Removed\<rparr>
   \<and> Slice_Get (0, []) 1
       (fst (run fst 0 (0, []) [CallRemove 1]
          (eager_of [(1, ''a''), (2, ''b'')], 0 :: nat))) =
       (0, [])
   \<and> fst (LazySlice_Get fst (0, []) 1
       (fst (run fst 0 (0, []) [CallRemove 1]
          (eager_of [(1, ''a''), (2, ''b'')], 0 :: nat)))
       (0 :: nat)) = Err ErrNotFound
   \<and> Slice_Get (0, []) 7
       (eager_of [(1, ''a''), (2, ''b'')]) = (0, [])
   \<and> fst (LazySlice_Get fst (0, []) 7
       (eager_of [(1, ''a''), (2, ''b'')]) (0 :: nat)) =
       Err ErrNotFound
   \<and> Slice_Get (0, []) 2
       (eager_of [(1, ''a''), (2, ''b'')]) = (2, ''b'')"
proof -
  let ?e = "eager_of [(1, ''a''), (2, ''b'')]"
  let ?e' = "fst (run fst 0 (0, []) [CallRemove 1] (?e, 0 :: nat))"
  note at1 = Slice_Get_ignores_status [where e = ?e' and i = 1 and zero = "(0, [])"
      and ident = fst and w = "0 :: nat"]
  note at7 = Slice_Get_ignores_status [where e = ?e and i = 7 and zero = "(0, [])"
      and ident = fst and w = "0 :: nat"]
  note at2 = Slice_Get_ignores_status [where e = ?e and i = 2 and zero = "(0, [])"
      and ident = fst and w = "0 :: nat"]
  note kept = Slice_Get_ignores_status [where e = ?e and zero = "(0, [])" and ident = fst
      and vs = "[(1, ''a''), (2, ''b'')]" and zeroI = 0 and cs = "[CallRemove 1]"
      and w = "0 :: nat"]
  have tomb: "tomb_inv (0, []) ?e'"
    using kept [THEN conjunct2, THEN conjunct2, THEN conjunct2, THEN conjunct2, THEN conjunct1]
      kept [THEN conjunct2, THEN conjunct2, THEN conjunct2, THEN conjunct2, THEN conjunct2]
    unfolding eager_of_def by (rule rev_mp)
  have removed: "linkedmap_Get (fetched ?e') 1 = Some \<lparr>value = (0, []), status = Removed\<rparr>"
    by code_simp
  have untracked: "linkedmap_Get (fetched ?e) 7 = None" and loaded: "isSet ?e"
    and tracked: "linkedmap_Get (fetched ?e) 2 = Some \<lparr>value = (2, ''b''), status = Unchanged\<rparr>"
    by code_simp+
  have r1: "Slice_Get (0, []) 1 ?e' = (0, []) \<and>
      fst (LazySlice_Get fst (0, []) 1 ?e' (0 :: nat)) = Err ErrNotFound"
    using at1 [THEN conjunct2, THEN conjunct2, THEN conjunct1, THEN spec,
        of "\<lparr>value = (0, []), status = Removed\<rparr>"] removed tomb
    by simp
  have r7: "Slice_Get (0, []) 7 ?e = (0, [])"
    using at7 [THEN conjunct1] untracked by (rule mp)
  have r7': "fst (LazySlice_Get fst (0, []) 7 ?e (0 :: nat)) = Err ErrNotFound"
    using at7 [THEN conjunct2, THEN conjunct2, THEN conjunct2, THEN conjunct1] untracked loaded
    by blast
  have r2: "Slice_Get (0, []) 2 ?e = (2, ''b'')"
    using at2 [THEN conjunct2, THEN conjunct1, THEN spec, THEN mp, OF tracked] by simp
  from tomb removed r1 [THEN conjunct1] r1 [THEN conjunct2] r7 r7' r2 show ?thesis
    by (intro conjI)
qed

text \<open>
  C10. \<open>Remove(id)\<close> on an identity whose prior status is not \<open>Added\<close> (tracked or not) stores
  the zero value with status \<open>Removed\<close>, whatever value the identity held, and \<open>Changes()\<close>
  reports that identity with the zero value and status \<open>Removed\<close>; it is the only item of that
  identity when the store holds each key once. \<open>Get(id)\<close> on an untracked identity of a
  collection that is not loaded, the fetch answering nothing, likewise stores and reports the
  zero value with status \<open>Absent\<close>. In general, when every tombstone holds the zero value
  (\<open>tomb_inv\<close>), every item of \<open>Changes()\<close> with status \<open>Removed\<close> or \<open>Absent\<close> carries the zero
  value.
\<close>

theorem tombstones_carry_zero:
  fixes s :: "('t, 'i, 'x, 'w) LazySlice" and ident :: "'t \<Rightarrow> 'i" and zero :: 't and i :: 'i
    and w :: 'w
  defines "s1 \<equiv> snd (LazySlice_Remove zero i s)"
  defines "s2 \<equiv> fst (snd (LazySlice_Get ident zero i s w))"
  shows
    "(map_option status (linkedmap_Get (fetched s) i) \<noteq> Some Added \<longrightarrow>
        linkedmap_Get (fetched s1) i = Some \<lparr>value = zero, status = Removed\<rparr>
        \<and> \<lparr>ID = i, Value = zero, Status = Removed\<rparr> \<in> set (Items (LazySlice_Changes s1))
        \<and> (linkedmap_ok (fetched s) \<longrightarrow>
             (\<forall>c \<in> set (Items (LazySlice_Changes s1)).
                ID c = i \<longrightarrow> c = \<lparr>ID = i, Value = zero, Status = Removed\<rparr>)))
     \<and> (linkedmap_Get (fetched s) i = None \<and> \<not> isSet s \<and> fn s = Some f \<and> f i w = (Ok [], w') \<longrightarrow>
        linkedmap_Get (fetched s2) i = Some \<lparr>value = zero, status = Absent\<rparr>
        \<and> \<lparr>ID = i, Value = zero, Status = Absent\<rparr> \<in> set (Items (LazySlice_Changes s2)))
     \<and> (tomb_inv zero s \<longrightarrow>
        (\<forall>c \<in> set (Items (LazySlice_Changes s)).
           Status c = Removed \<or> Status c = Absent \<longrightarrow> Value c = zero))"
proof -
  have items: "set (Items (LazySlice_Changes t)) =
      {\<lparr>ID = k, Value = value item, Status = status item\<rparr> | k item.
         (k, item) \<in> set (fetched t) \<and> status item \<noteq> Unchanged}"
    for t :: "('t, 'i, 'x, 'w) LazySlice"
    by (simp add: LazySlice_Changes_def LazySlice_changesIterator_def linkedmap_Entries_def
        changesIterator_loop_set)
  have removed: "fetched s1 = linkedmap_Put i \<lparr>value = zero, status = Removed\<rparr> (fetched s)"
    if "map_option status (linkedmap_Get (fetched s) i) \<noteq> Some Added"
    using that by (auto simp: s1_def LazySlice_Remove_def Let_def)
  have absent: "fetched s2 = linkedmap_Put i \<lparr>value = zero, status = Absent\<rparr> (fetched s)"
    if "linkedmap_Get (fetched s) i = None" "\<not> isSet s" "fn s = Some f" "f i w = (Ok [], w')"
    using that by (simp add: s2_def LazySlice_Get_def)
  have put: "linkedmap_Get (fetched t) i = Some \<lparr>value = zero, status = st\<rparr>
      \<and> (st \<noteq> Unchanged \<longrightarrow> \<lparr>ID = i, Value = zero, Status = st\<rparr> \<in> set (Items (LazySlice_Changes t)))
      \<and> (linkedmap_ok (fetched s) \<longrightarrow>
           (\<forall>c \<in> set (Items (LazySlice_Changes t)).
              ID c = i \<longrightarrow> c = \<lparr>ID = i, Value = zero, Status = st\<rparr>))"
    if "fetched t = linkedmap_Put i \<lparr>value = zero, status = st\<rparr> (fetched s)"
    for t :: "('t, 'i, 'x, 'w) LazySlice" and st
  proof -
    have "(i, \<lparr>value = zero, status = st\<rparr>) \<in> set (fetched t)"
      by (simp add: that linkedmap_Put_mem)
    then have "st \<noteq> Unchanged \<longrightarrow>
        \<lparr>ID = i, Value = zero, Status = st\<rparr> \<in> set (Items (LazySlice_Changes t))"
      by (force simp: items)
    moreover have "c = \<lparr>ID = i, Value = zero, Status = st\<rparr>"
      if ok: "linkedmap_ok (fetched s)" and c: "c \<in> set (Items (LazySlice_Changes t))"
        and "ID c = i" for c
    proof -
      from c \<open>ID c = i\<close> obtain item where "(i, item) \<in> set (fetched t)"
        and "c = \<lparr>ID = i, Value = value item, Status = status item\<rparr>"
        by (auto simp: items)
      moreover from this(1) ok have "item = \<lparr>value = zero, status = st\<rparr>"
        unfolding \<open>fetched t = _\<close> by (rule linkedmap_Put_same_key [rotated])
      ultimately show ?thesis by simp
    qed
    ultimately show ?thesis
      by (auto simp: that linkedmap_Get_Put)
  qed
  have general: "Value c = zero"
    if "tomb_inv zero s" and "c \<in> set (Items (LazySlice_Changes s))"
      and "Status c = Removed \<or> Status c = Absent" for c
    using that by (auto simp: items tomb_inv_def)
  have on_Remove:
    "map_option status (linkedmap_Get (fetched s) i) \<noteq> Some Added \<longrightarrow>
        linkedmap_Get (fetched s1) i = Some \<lparr>value = zero, status = Removed\<rparr>
        \<and> \<lparr>ID = i, Value = zero, Status = Removed\<rparr> \<in> set (Items (LazySlice_Changes s1))
        \<and> (linkedmap_ok (fetched s) \<longrightarrow>
             (\<forall>c \<in> set (Items (LazySlice_Changes s1)).
                ID c = i \<longrightarrow> c = \<lparr>ID = i, Value = zero, Status = Removed\<rparr>))"
    using put [OF removed] by simp
  have on_Get:
    "linkedmap_Get (fetched s) i = None \<and> \<not> isSet s \<and> fn s = Some f \<and> f i w = (Ok [], w') \<longrightarrow>
        linkedmap_Get (fetched s2) i = Some \<lparr>value = zero, status = Absent\<rparr>
        \<and> \<lparr>ID = i, Value = zero, Status = Absent\<rparr> \<in> set (Items (LazySlice_Changes s2))"
    using put [OF absent] by simp
  have always:
    "tomb_inv zero s \<longrightarrow>
        (\<forall>c \<in> set (Items (LazySlice_Changes s)).
           Status c = Removed \<or> Status c = Absent \<longrightarrow> Value c = zero)"
    using general by blast
  from on_Remove on_Get always show ?thesis
    by (intro conjI)
qed

theorem tombstones_carry_zero_witness:
  "map_option status
     (linkedmap_Get (fetched (eager_of [(1, ''a'')])) 1) =
     Some Unchanged
   \<and> linkedmap_Get
       (fetched (snd (LazySlice_Remove (0, []) 1
          (eager_of [(1, ''a'')])))) 1 =
       Some \<lparr>value = (0, []), status = Removed\<rparr>
   \<and> \<lparr>ID = 1, Value = (0, []), Status = Removed\<rparr>
       \<in> set (Items (LazySlice_Changes (snd (LazySlice_Remove (0, []) 1
            (eager_of [(1, ''a'')])))))
   \<and> list_all (\<lambda>c. ID c \<noteq> 1 \<or> c = \<lparr>ID = 1, Value = (0, []), Status = Removed\<rparr>)
       (Items (LazySlice_Changes (snd (LazySlice_Remove (0, []) 1
            (eager_of [(1, ''a'')])))))
   \<and> Items (LazySlice_Changes (snd (LazySlice_Remove (0, []) 1
            (eager_of [(1, ''a'')])))) =
       [\<lparr>ID = 1, Value = (0, []), Status = Removed\<rparr>]
   \<and> counted (lookup [(1, ''a'')]) 99 0 = (Ok [], 1)
   \<and> \<lparr>ID = 99, Value = (0, []), Status = Absent\<rparr>
       \<in> set (Items (LazySlice_Changes (fst (snd (LazySlice_Get fst (0, []) 99
            (lazy_of [(1, ''a'')]) (0 :: nat))))))
   \<and> list_all (\<lambda>c. Status c = Added \<or> Value c = (0, []))
       (Items (LazySlice_Changes
          (fst (run fst 0 (0, []) [CallGet 99, CallSet (3, ''c''), CallRemove 1]
             (lazy_of [(1, ''a'')], 0 :: nat)))))"
proof -
  let ?e = "eager_of [(1, ''a'')]"
  let ?f = "counted (lookup [(1, ''a'')])"
  let ?s = "lazy_of [(1, ''a'')]"
  let ?t = "fst (run fst 0 (0, []) [CallGet 99, CallSet (3, ''c''), CallRemove 1] (?s, 0 :: nat))"
  have prior: "map_option status (linkedmap_Get (fetched ?e) 1) = Some Unchanged"
    by code_simp
  have not_added: "map_option status (linkedmap_Get (fetched ?e) 1) \<noteq> Some Added"
    unfolding prior by simp
  have ok: "linkedmap_ok (fetched ?e)"
    unfolding eager_of_def by (rule linkedmap_ok_constructors)
  have lazy: "linkedmap_Get (fetched ?s) 99 = None \<and> \<not> isSet ?s \<and> fn ?s = Some ?f
      \<and> ?f 99 0 = (Ok [], 1)"
    by (simp add: concrete_defs)
  have store: "fetched ?t =
      [(99, \<lparr>value = (0, []), status = Absent\<rparr>), (3, \<lparr>value = (3, ''c''), status = Added\<rparr>),
       (1, \<lparr>value = (0, []), status = Removed\<rparr>)]"
    by code_simp
  have tomb: "tomb_inv (0, []) ?t"
    unfolding tomb_inv_def store by simp
  note on_Remove =
    tombstones_carry_zero [where s = ?e and i = 1 and zero = "(0, [])", THEN conjunct1, THEN mp,
      OF not_added]
  note on_Get =
    tombstones_carry_zero [where s = ?s and i = 99 and zero = "(0, [])" and ident = fst
      and w = "0 :: nat" and f = ?f and w' = 1, THEN conjunct2, THEN conjunct1, THEN mp, OF lazy]
  note always =
    tombstones_carry_zero [where s = ?t and zero = "(0, [])", THEN conjunct2, THEN conjunct2,
      THEN mp, OF tomb]
  have items: "Items (LazySlice_Changes (snd (LazySlice_Remove (0, []) 1 ?e))) =
       [\<lparr>ID = 1, Value = (0, []), Status = Removed\<rparr>]"
    by code_simp
  have only: "list_all (\<lambda>c. ID c \<noteq> 1 \<or> c = \<lparr>ID = 1, Value = (0, []), Status = Removed\<rparr>)
       (Items (LazySlice_Changes (snd (LazySlice_Remove (0, []) 1 ?e))))"
    using on_Remove [THEN conjunct2, THEN conjunct2, THEN mp, OF ok]
    by (auto simp: list_all_iff)
  have statuses: "list_all (\<lambda>c. Status c = Added \<or> Status c = Removed \<or> Status c = Absent)
      (Items (LazySlice_Changes ?t))"
    by code_simp
  have zeros: "list_all (\<lambda>c. Status c = Added \<or> Value c = (0, [])) (Items (LazySlice_Changes ?t))"
    using always statuses by (auto simp: list_all_iff)
  from prior on_Remove [THEN conjunct1] on_Remove [THEN conjunct2, THEN conjunct1] only items
    lazy [THEN conjunct2, THEN conjunct2, THEN conjunct2] on_Get [THEN conjunct2] zeros
  show ?thesis by (intro conjI)
qed

end
